theory Spec2Isabelle
  imports Complex_Main
begin

section \<open>Strings and numbers of the monitored program\<close>

text \<open>
  A Python \<open>str\<close> is a sequence of Unicode code points, so it is modelled as a list of
  code points. The source's literals are Chinese; each is given by its code points with an
  English gloss. Python numbers (the integers read from the driver library, the float
  thresholds, the quotient \<open>memory_used / memory_total\<close>) are modelled as exact reals.
\<close>

type_synonym pystr = "nat list"

datatype py_error = ZeroDivisionError | AttributeError | IndexError | ValueError

text \<open>\<open>sep.join(parts)\<close>.\<close>

fun join :: "pystr \<Rightarrow> pystr list \<Rightarrow> pystr" where
  "join sep [] = []"
| "join sep [x] = x"
| "join sep (x # y # ys) = x @ sep @ join sep (y # ys)"

text \<open>The code points for which \<open>str.isspace\<close> holds; \<open>str.split()\<close> splits at runs of them.\<close>

definition is_space :: "nat \<Rightarrow> bool" where
  "is_space c \<longleftrightarrow>
     (9 \<le> c \<and> c \<le> 13) \<or> (28 \<le> c \<and> c \<le> 32) \<or> c = 133 \<or> c = 160 \<or> c = 5760 \<or>
     (8192 \<le> c \<and> c \<le> 8202) \<or> c = 8232 \<or> c = 8233 \<or> c = 8239 \<or> c = 8287 \<or> c = 12288"

fun split_acc :: "pystr \<Rightarrow> pystr \<Rightarrow> pystr list" where
  "split_acc cur [] = (if cur = [] then [] else [cur])"
| "split_acc cur (c # cs) =
     (if is_space c then (if cur = [] then split_acc [] cs else cur # split_acc [] cs)
      else split_acc (cur @ [c]) cs)"

text \<open>\<open>s.split()\<close> with no separator: the maximal runs of non-whitespace, in order.\<close>

definition py_split :: "pystr \<Rightarrow> pystr list" where
  "py_split s = split_acc [] s"

text \<open>\<open>str(n)\<close> for a Python \<open>int\<close>: decimal digits, with a minus sign when negative.\<close>

fun str_nat :: "nat \<Rightarrow> pystr" where
  "str_nat n = (if n < 10 then [48 + n] else str_nat (n div 10) @ [48 + n mod 10])"

declare str_nat.simps [simp del]

definition str_int :: "int \<Rightarrow> pystr" where
  "str_int i = (if i < 0 then 45 # str_nat (nat (- i)) else str_nat (nat i))"

text \<open>
  The float formatting of Python's f-strings is a library routine; the classifier takes it
  as a parameter: \<open>str_num x\<close> is \<open>f"{x}"\<close>, \<open>fmt_pct1 x\<close> is \<open>f"{x:.1%}"\<close> and
  \<open>fmt_f1 x\<close> is \<open>f"{x:.1f}"\<close>. \<open>isoformat t\<close> is \<open>datetime.isoformat\<close> of a
  time stamp, which is modelled as a real number of seconds.
\<close>

record formatters =
  str_num :: "real \<Rightarrow> pystr"
  fmt_pct1 :: "real \<Rightarrow> pystr"
  fmt_f1 :: "real \<Rightarrow> pystr"
  isoformat :: "real \<Rightarrow> pystr"

section \<open>The anomaly detector (anomaly_detector.py)\<close>

datatype GPUStatus = NORMAL | FLUCTUATING | CRITICAL

text \<open>\<open>GPUStatus.value\<close>: the words for stable, fluctuating and faulty.\<close>

fun status_value :: "GPUStatus \<Rightarrow> pystr" where
  "status_value NORMAL = [31283, 23450]"
| "status_value FLUCTUATING = [27874, 21160]"
| "status_value CRITICAL = [25925, 38556]"

record StatusThreshold =
  temp_warning :: real
  temp_critical :: real
  util_low :: real
  util_normal :: real
  util_high :: real
  util_std_warning :: real
  power_std_warning :: real
  memory_normal :: real
  memory_high :: real
  memory_critical :: real
  ecc_warning :: int

definition default_thresholds :: StatusThreshold where
  "default_thresholds =
     \<lparr>temp_warning = 75, temp_critical = 85, util_low = 5, util_normal = 80, util_high = 95,
      util_std_warning = 15, power_std_warning = 20, memory_normal = 0.8, memory_high = 0.9,
      memory_critical = 0.95, ecc_warning = 1\<rparr>"

text \<open>
  One device's metrics dictionary. The keys that \<open>_get_basic_metrics\<close> always writes and
  that \<open>detect\<close> reads without a membership test are plain fields. The keys that \<open>detect\<close>
  tests with \<open>in\<close> are optional: \<open>None\<close> is an absent key. \<open>driver_version\<close> can be
  present with the value \<open>None\<close> (\<open>_get_driver_version\<close> returns \<open>Optional[str]\<close>), which
  is \<open>Some None\<close> here.
\<close>

record sample =
  name :: pystr
  memory_used :: real
  memory_total :: real
  memory_free :: real
  utilization_gpu :: real
  utilization_memory :: real
  temperature :: real
  power_draw :: real
  ecc_errors :: "int option"
  power_error :: "pystr option"
  driver_version :: "pystr option option"
  nvidia_smi_ok :: "bool option"

record GPUAnomalyDetector =
  window_size :: int
  history :: "pystr \<rightharpoonup> sample list"
  thresholds :: StatusThreshold

text \<open>\<open>GPUAnomalyDetector.__init__\<close>; the default \<open>window_size\<close> is 10.\<close>

definition GPUAnomalyDetector_init :: "int \<Rightarrow> GPUAnomalyDetector" where
  "GPUAnomalyDetector_init ws =
     \<lparr>window_size = ws, history = Map.empty, thresholds = default_thresholds\<rparr>"

text \<open>
  \<open>update\<close>: create the window of an unseen device, append, and \<open>pop(0)\<close> once when the
  length exceeds \<open>window_size\<close>. The list is non-empty after the append, so \<open>pop(0)\<close>
  cannot raise.
\<close>

definition update :: "GPUAnomalyDetector \<Rightarrow> pystr \<Rightarrow> sample \<Rightarrow> GPUAnomalyDetector" where
  "update self gpu_id metrics =
     (let h0 = (case history self gpu_id of None \<Rightarrow> [] | Some h \<Rightarrow> h);
          h1 = h0 @ [metrics];
          h2 = (if int (length h1) > window_size self then tl h1 else h1)
      in self\<lparr>history := (history self)(gpu_id \<mapsto> h2)\<rparr>)"

text \<open>A sequence of \<open>update\<close> calls, in order.\<close>

definition updates :: "GPUAnomalyDetector \<Rightarrow> (pystr \<times> sample) list \<Rightarrow> GPUAnomalyDetector" where
  "updates self calls = foldl (\<lambda>d (g, m). update d g m) self calls"

text \<open>\<open>np.std\<close>: the population standard deviation.\<close>

definition np_mean :: "real list \<Rightarrow> real" where
  "np_mean xs = sum_list xs / real (length xs)"

definition np_std :: "real list \<Rightarrow> real" where
  "np_std xs = sqrt (np_mean (map (\<lambda>x. \<bar>x - np_mean xs\<bar> ^ 2) xs))"

text \<open>The literals of \<open>detect\<close>.\<close>

definition msg_no_data :: pystr where \<comment> \<open>no monitoring data\<close>
  "msg_no_data = [26080, 30417, 25511, 25968, 25454]"

definition msg_smi :: pystr where \<comment> \<open>nvidia-smi responds abnormally\<close>
  "msg_smi = [110, 118, 105, 100, 105, 97, 45, 115, 109, 105, 32, 21709, 24212, 24322, 24120]"

definition msg_power :: pystr where \<comment> \<open>power supply fault, colon, space\<close>
  "msg_power = [20379, 30005, 24322, 24120, 58, 32]"

definition msg_ecc :: pystr where \<comment> \<open>ECC errors, colon, space\<close>
  "msg_ecc = [69, 67, 67, 38169, 35823, 58, 32]"

definition msg_times :: pystr where \<comment> \<open>times\<close>
  "msg_times = [27425]"

definition msg_temp_critical :: pystr where \<comment> \<open>temperature too high, space, bracket\<close>
  "msg_temp_critical = [28201, 24230, 36807, 39640, 32, 40]"

definition msg_degrees :: pystr where \<comment> \<open>degree sign, C, bracket\<close>
  "msg_degrees = [176, 67, 41]"

definition msg_mem_critical :: pystr where \<comment> \<open>memory usage too high, space, bracket\<close>
  "msg_mem_critical = [26174, 23384, 20351, 29992, 29575, 36807, 39640, 32, 40]"

definition msg_close :: pystr where
  "msg_close = [41]"

definition msg_util_std :: pystr where \<comment> \<open>utilisation fluctuates (sigma=\<close>
  "msg_util_std = [21033, 29992, 29575, 27874, 21160, 32, 40, 963, 61]"

definition msg_power_std :: pystr where \<comment> \<open>power fluctuates (sigma=\<close>
  "msg_power_std = [21151, 32791, 27874, 21160, 32, 40, 963, 61]"

definition msg_temp_warning :: pystr where \<comment> \<open>temperature rather high, space, bracket\<close>
  "msg_temp_warning = [28201, 24230, 20559, 39640, 32, 40]"

definition msg_mem_warning :: pystr where \<comment> \<open>memory usage rather high, space, bracket\<close>
  "msg_mem_warning = [26174, 23384, 20351, 29992, 29575, 20559, 39640, 32, 40]"

definition msg_low_load :: pystr where
  "msg_low_load = [20302, 36127, 36733]"

definition msg_high_load :: pystr where
  "msg_high_load = [39640, 36127, 36733]"

definition msg_normal_load :: pystr where
  "msg_normal_load = [27491, 24120, 36127, 36733]"

definition msg_high_memory :: pystr where
  "msg_high_memory = [39640, 26174, 23384]"

definition msg_driver :: pystr where \<comment> \<open>driver, space\<close>
  "msg_driver = [39537, 21160, 32]"

definition msg_running :: pystr where \<comment> \<open>operating normally\<close>
  "msg_running = [27491, 24120, 36816, 34892]"

definition msg_sep :: pystr where \<comment> \<open>space, bar, space\<close>
  "msg_sep = [32, 124, 32]"

text \<open>The three accumulations of \<open>detect\<close>, each in the source's order of appends.\<close>

definition critical_reasons :: "formatters \<Rightarrow> StatusThreshold \<Rightarrow> sample \<Rightarrow> real \<Rightarrow> pystr list" where
  "critical_reasons F T latest memory_usage =
     (case ecc_errors latest of
        None \<Rightarrow> []
      | Some n \<Rightarrow> if n > 0 then [msg_ecc @ str_int n @ msg_times] else [])
     @ (if temperature latest \<ge> temp_critical T
        then [msg_temp_critical @ str_num F (temperature latest) @ msg_degrees] else [])
     @ (if memory_usage \<ge> memory_critical T
        then [msg_mem_critical @ fmt_pct1 F memory_usage @ msg_close] else [])"

definition warnings :: "formatters \<Rightarrow> StatusThreshold \<Rightarrow> sample list \<Rightarrow> sample \<Rightarrow> real \<Rightarrow> pystr list" where
  "warnings F T hist latest memory_usage =
     (if length hist \<ge> 3 then
        (let util_std = np_std (map utilization_gpu hist);
             power_std = np_std (map power_draw hist)
         in (if util_std \<ge> util_std_warning T
             then [msg_util_std @ fmt_f1 F util_std @ msg_close] else [])
          @ (if power_std \<ge> power_std_warning T
             then [msg_power_std @ fmt_f1 F power_std @ msg_close] else []))
      else [])
     @ (if temperature latest \<ge> temp_warning T
        then [msg_temp_warning @ str_num F (temperature latest) @ msg_degrees] else [])
     @ (if memory_usage \<ge> memory_high T
        then [msg_mem_warning @ fmt_pct1 F memory_usage @ msg_close] else [])"

text \<open>
  The description of the NORMAL branch. \<open>latest['driver_version'].split()[0]\<close> raises
  AttributeError on \<open>None\<close> and IndexError when the string has no non-whitespace character.
\<close>

definition status_desc :: "StatusThreshold \<Rightarrow> sample \<Rightarrow> real \<Rightarrow> py_error + pystr list" where
  "status_desc T latest memory_usage =
     (let util = utilization_gpu latest;
          d1 = (if util < util_low T then [msg_low_load]
                else if util > util_normal T then [msg_high_load]
                else [msg_normal_load]);
          d2 = d1 @ (if memory_usage > memory_normal T then [msg_high_memory] else [])
      in case driver_version latest of
           None \<Rightarrow> Inr d2
         | Some None \<Rightarrow> Inl AttributeError
         | Some (Some v) \<Rightarrow>
             (case py_split v of
                [] \<Rightarrow> Inl IndexError
              | w # _ \<Rightarrow> Inr (d2 @ [msg_driver @ w])))"

text \<open>
  \<open>detect\<close>. An exception is \<open>Inl\<close>. The division \<open>memory_used / memory_total\<close> comes
  after the ECC and temperature appends in the source; those appends are to a local list,
  so raising there and raising before them are the same result.
\<close>

definition power_error_set :: "sample \<Rightarrow> pystr option" where
  \<comment> \<open>\<open>'power_error' in latest and latest['power_error']\<close>: present and non-empty\<close>
  "power_error_set latest =
     (case power_error latest of
        None \<Rightarrow> None
      | Some e \<Rightarrow> (if e \<noteq> [] then Some e else None))"

definition detect_rest ::
  "formatters \<Rightarrow> StatusThreshold \<Rightarrow> sample list \<Rightarrow> sample \<Rightarrow> py_error + (GPUStatus \<times> pystr)" where
  \<comment> \<open>\<open>detect\<close> from the ECC check on\<close>
  "detect_rest F T hist latest =
     (if memory_total latest = 0 then Inl ZeroDivisionError
      else
        (let memory_usage = memory_used latest / memory_total latest;
             crit = critical_reasons F T latest memory_usage;
             warn = warnings F T hist latest memory_usage
         in if crit \<noteq> [] then Inr (CRITICAL, join msg_sep crit)
            else if warn \<noteq> [] then Inr (FLUCTUATING, join msg_sep warn)
            else (case status_desc T latest memory_usage of
                    Inl e \<Rightarrow> Inl e
                  | Inr desc \<Rightarrow>
                      Inr (NORMAL, if join msg_sep desc \<noteq> [] then join msg_sep desc
                                   else msg_running))))"

definition detect :: "formatters \<Rightarrow> GPUAnomalyDetector \<Rightarrow> pystr \<Rightarrow> py_error + (GPUStatus \<times> pystr)" where
  "detect F self gpu_id =
     (case history self gpu_id of
        None \<Rightarrow> Inr (CRITICAL, msg_no_data)
      | Some hist \<Rightarrow>
          (if hist = [] then Inr (CRITICAL, msg_no_data)
           else if nvidia_smi_ok (last hist) = Some False then Inr (CRITICAL, msg_smi)
           else (case power_error_set (last hist) of
                   Some e \<Rightarrow> Inr (CRITICAL, msg_power @ e)
                 | None \<Rightarrow> detect_rest F (thresholds self) hist (last hist))))"

text \<open>The update calls of a sequence that are for one device, in order.\<close>

definition calls_for :: "pystr \<Rightarrow> (pystr \<times> sample) list \<Rightarrow> sample list" where
  "calls_for g calls = map snd (filter (\<lambda>u. fst u = g) calls)"

section \<open>The sample queue (monitor.py, BaseMonitor)\<close>

text \<open>
  \<open>queue.Queue(maxsize=buffer_size)\<close> of the Python standard library, oldest entry first:
  \<open>full()\<close> is \<open>0 < maxsize \<le> qsize\<close> (a \<open>maxsize\<close> of zero or less is unbounded),
  \<open>get()\<close> waits while the queue is empty and \<open>put\<close> waits while it is full. Waiting
  forever is \<open>None\<close>.
\<close>

record 'a BaseMonitor =
  buffer_size :: int
  data_queue :: "'a list"

definition BaseMonitor_init :: "int \<Rightarrow> 'a BaseMonitor" where
  "BaseMonitor_init n = \<lparr>buffer_size = n, data_queue = []\<rparr>"

definition queue_full :: "'a BaseMonitor \<Rightarrow> bool" where
  "queue_full q \<longleftrightarrow> 0 < buffer_size q \<and> buffer_size q \<le> int (length (data_queue q))"

definition queue_get :: "'a BaseMonitor \<Rightarrow> ('a \<times> 'a BaseMonitor) option" where
  "queue_get q =
     (case data_queue q of
        [] \<Rightarrow> None
      | x # xs \<Rightarrow> Some (x, q\<lparr>data_queue := xs\<rparr>))"

definition queue_put :: "'a BaseMonitor \<Rightarrow> 'a \<Rightarrow> 'a BaseMonitor option" where
  "queue_put q x =
     (if queue_full q then None else Some (q\<lparr>data_queue := data_queue q @ [x]\<rparr>))"

text \<open>The push of \<open>_monitoring_loop\<close>: \<open>if full: get()\<close>, then \<open>put\<close>.\<close>

definition push :: "'a BaseMonitor \<Rightarrow> 'a \<Rightarrow> 'a BaseMonitor option" where
  "push q x =
     (if queue_full q then
        (case queue_get q of
           None \<Rightarrow> None
         | Some (_, q') \<Rightarrow> queue_put q' x)
      else queue_put q x)"

fun pushes :: "'a BaseMonitor \<Rightarrow> 'a list \<Rightarrow> 'a BaseMonitor option" where
  "pushes q [] = Some q"
| "pushes q (x # xs) = (case push q x of None \<Rightarrow> None | Some q' \<Rightarrow> pushes q' xs)"

text \<open>\<open>get_current_data\<close>: \<open>list(self.data_queue.queue)\<close>, a copy of the queue's contents. As a
  method call it returns the copy and the monitor, which it does not change.\<close>

definition get_current_data :: "'a BaseMonitor \<Rightarrow> 'a list \<times> 'a BaseMonitor" where
  "get_current_data self = (data_queue self, self)"

section \<open>The broadcast (websocket.py)\<close>

text \<open>A Python dictionary in insertion order; \<open>d[k] = v\<close> keeps the place of a key already there.\<close>

fun dict_set :: "'k \<Rightarrow> 'v \<Rightarrow> ('k \<times> 'v) list \<Rightarrow> ('k \<times> 'v) list" where
  "dict_set k v [] = [(k, v)]"
| "dict_set k v (p # ps) = (if fst p = k then (k, v) # ps else p # dict_set k v ps)"

type_synonym metrics_dict = "(pystr \<times> sample) list"

type_synonym status_info = "(pystr \<times> (pystr \<times> pystr)) list"

text \<open>The dictionary \<open>data\<close> that \<open>broadcast\<close> receives and sends; \<open>status\<close> is \<open>None\<close> while
  the key is absent. An entry of \<open>status\<close> is the pair of \<open>'status'\<close> and \<open>'reason'\<close>.\<close>

record envelope =
  timestamp :: pystr
  metrics :: metrics_dict
  status :: "status_info option"

type_synonym connection = nat

text \<open>What one pass of the loop over the connections did: it sent, the send raised, or the
  classification of a device raised before the send.\<close>

datatype event =
  Sent connection envelope
| SendFailed connection envelope
| ClassifyFailed connection pystr py_error

text \<open>The inner loop over \<open>metrics.items()\<close>; it stops at the first exception, which the
  \<open>except\<close> of the outer loop catches.\<close>

fun classify_all ::
  "formatters \<Rightarrow> GPUAnomalyDetector \<Rightarrow> metrics_dict \<Rightarrow> status_info \<Rightarrow>
     GPUAnomalyDetector \<times> ((pystr \<times> py_error) + status_info)" where
  "classify_all F det [] status_info = (det, Inr status_info)"
| "classify_all F det ((gpu_id, gpu_metrics) # rest) status_info =
     (let det' = update det gpu_id gpu_metrics
      in case detect F det' gpu_id of
           Inl e \<Rightarrow> (det', Inl (gpu_id, e))
         | Inr (st, reason) \<Rightarrow>
             classify_all F det' rest (dict_set gpu_id (status_value st, reason) status_info))"

text \<open>
  The loop of \<open>broadcast\<close> over \<open>active_connections\<close>. \<open>send c data\<close> tells whether
  \<open>connection.send_json(data)\<close> returns (\<open>True\<close>) or raises. Every exception of a pass is
  caught and logged, and the loop goes on with the next connection. The list of
  connections is only read.
\<close>

fun broadcast_loop ::
  "formatters \<Rightarrow> (connection \<Rightarrow> envelope \<Rightarrow> bool) \<Rightarrow> GPUAnomalyDetector \<Rightarrow> envelope \<Rightarrow>
     connection list \<Rightarrow> GPUAnomalyDetector \<times> envelope \<times> event list" where
  "broadcast_loop F send det data [] = (det, data, [])"
| "broadcast_loop F send det data (c # cs) =
     (case classify_all F det (metrics data) [] of
        (det', Inl (g, e)) \<Rightarrow>
          (case broadcast_loop F send det' data cs of
             (det'', data'', evs) \<Rightarrow> (det'', data'', ClassifyFailed c g e # evs))
      | (det', Inr status_info) \<Rightarrow>
          (let data' = data\<lparr>status := Some status_info\<rparr>;
               ev = (if send c data' then Sent c data' else SendFailed c data')
           in case broadcast_loop F send det' data' cs of
                (det'', data'', evs) \<Rightarrow> (det'', data'', ev # evs)))"

record WebSocketManager =
  active_connections :: "connection list"
  gpu_monitor :: "(real \<times> metrics_dict) BaseMonitor"
  anomaly_detector :: GPUAnomalyDetector

definition connect :: "WebSocketManager \<Rightarrow> connection \<Rightarrow> WebSocketManager" where
  "connect self c = self\<lparr>active_connections := active_connections self @ [c]\<rparr>"

text \<open>\<open>disconnect\<close>: \<open>list.remove\<close>, which raises ValueError when the element is not there. It is
  called by \<open>websocket_endpoint\<close> when \<open>receive_text\<close> raises.\<close>

definition disconnect :: "WebSocketManager \<Rightarrow> connection \<Rightarrow> py_error + WebSocketManager" where
  "disconnect self c =
     (if c \<in> set (active_connections self)
      then Inr (self\<lparr>active_connections := remove1 c (active_connections self)\<rparr>)
      else Inl ValueError)"

definition broadcast ::
  "formatters \<Rightarrow> (connection \<Rightarrow> envelope \<Rightarrow> bool) \<Rightarrow> WebSocketManager \<Rightarrow> envelope \<Rightarrow>
     WebSocketManager \<times> event list" where
  "broadcast F send self data =
     (case broadcast_loop F send (anomaly_detector self) data (active_connections self) of
        (det, _, evs) \<Rightarrow> (self\<lparr>anomaly_detector := det\<rparr>, evs))"

text \<open>One pass of the \<open>while True\<close> loop of \<open>start_monitoring\<close>, without the sleep.\<close>

definition monitoring_tick ::
  "formatters \<Rightarrow> (connection \<Rightarrow> envelope \<Rightarrow> bool) \<Rightarrow> WebSocketManager \<Rightarrow>
     WebSocketManager \<times> event list" where
  "monitoring_tick F send self =
     (case get_current_data (gpu_monitor self) of
        (data, mon) \<Rightarrow>
          (let self' = self\<lparr>gpu_monitor := mon\<rparr>
           in if data \<noteq> [] then
                broadcast F send self'
                  \<lparr>timestamp = isoformat F (fst (last data)), metrics = snd (last data),
                   status = None\<rparr>
              else (self', [])))"

section \<open>The sampler (monitor.py, GPUMonitor)\<close>

text \<open>\<open>s.split(sep)\<close> for a separator of one character, and \<open>s.strip()\<close>.\<close>

fun split_on :: "nat \<Rightarrow> pystr \<Rightarrow> pystr \<Rightarrow> pystr list" where
  "split_on sep cur [] = [cur]"
| "split_on sep cur (c # cs) =
     (if c = sep then cur # split_on sep [] cs else split_on sep (cur @ [c]) cs)"

definition py_split_sep :: "nat \<Rightarrow> pystr \<Rightarrow> pystr list" where
  "py_split_sep sep s = split_on sep [] s"

definition py_strip :: "pystr \<Rightarrow> pystr" where
  "py_strip s = rev (dropWhile is_space (rev (dropWhile is_space s)))"

text \<open>\<open>f'gpu_{i}'\<close>.\<close>

definition gpu_key :: "nat \<Rightarrow> pystr" where
  "gpu_key i = [103, 112, 117, 95] @ str_nat i"

text \<open>
  What is outside the program during one call of \<open>get_metrics\<close>, each indexed by the
  device whose loop pass makes the call: the reads of the driver library (\<open>None\<close> when
  one raises), the pair that \<open>_run_command\<close> returns for each of the four shell commands,
  and Python's \<open>int()\<close> on a string (\<open>None\<close> when it raises ValueError).
\<close>

record provider =
  basic_metrics :: "nat \<Rightarrow> sample option"
  ecc_command :: "nat \<Rightarrow> bool \<times> pystr"
  power_command :: "nat \<Rightarrow> bool \<times> pystr"
  driver_command :: "nat \<Rightarrow> bool \<times> pystr"
  smi_command :: "nat \<Rightarrow> bool \<times> pystr"
  py_int :: "pystr \<Rightarrow> int option"

text \<open>The loop of \<open>_check_ecc_errors\<close> over the numbered output lines; a line without a colon
  or with a count that \<open>int()\<close> rejects is skipped by the bare \<open>except\<close>.\<close>

fun ecc_lines :: "(pystr \<Rightarrow> int option) \<Rightarrow> nat \<Rightarrow> pystr list \<Rightarrow> (pystr \<rightharpoonup> int) \<Rightarrow> (pystr \<rightharpoonup> int)" where
  "ecc_lines pint i [] ecc = ecc"
| "ecc_lines pint i (count # rest) ecc =
     (case py_split_sep 58 count of
        _ # field # _ \<Rightarrow>
          (case pint (py_strip field) of
             Some n \<Rightarrow> ecc_lines pint (Suc i) rest (ecc(gpu_key i \<mapsto> n))
           | None \<Rightarrow> ecc_lines pint (Suc i) rest ecc)
      | _ \<Rightarrow> ecc_lines pint (Suc i) rest ecc)"

definition check_ecc_errors :: "(pystr \<Rightarrow> int option) \<Rightarrow> bool \<times> pystr \<Rightarrow> (pystr \<rightharpoonup> int)" where
  "check_ecc_errors pint r =
     (case r of (success, output) \<Rightarrow>
        if success \<and> output \<noteq> [] then ecc_lines pint 0 (py_split_sep 10 output) Map.empty
        else Map.empty)"

definition check_power_errors :: "bool \<times> pystr \<Rightarrow> pystr option" where
  "check_power_errors r =
     (case r of (success, output) \<Rightarrow> if success \<and> output \<noteq> [] then Some output else None)"

definition get_driver_version :: "bool \<times> pystr \<Rightarrow> pystr option" where
  "get_driver_version r =
     (case r of (success, output) \<Rightarrow>
        if success \<and> output \<noteq> [] then
          (case py_split_sep 10 output of [] \<Rightarrow> None | l # _ \<Rightarrow> Some (py_strip l))
        else None)"

definition check_nvidia_smi_hang :: "bool \<times> pystr \<Rightarrow> bool" where
  "check_nvidia_smi_hang r = fst r"

record GPUMonitor =
  device_count :: int
  self_driver_version :: "pystr option"
  last_ecc_check :: real
  last_power_check :: real
  last_driver_check :: real

text \<open>
  One pass of the loop of \<open>get_metrics\<close> for device \<open>i\<close>, after \<open>_get_basic_metrics\<close> has
  returned the dictionary \<open>b\<close>: the three checks, each behind its own time stamp, then the
  driver version and the liveness flag. Nothing in it can raise: \<open>_run_command\<close> catches
  every exception.
\<close>

definition device_pass ::
  "provider \<Rightarrow> real \<Rightarrow> nat \<Rightarrow> GPUMonitor \<Rightarrow> sample \<Rightarrow> GPUMonitor \<times> sample" where
  "device_pass P t i self b =
     (let s0 = b\<lparr>ecc_errors := None, power_error := None, driver_version := None,
                 nvidia_smi_ok := None\<rparr>;
          ecc_due = (t - last_ecc_check self \<ge> 60);
          s1 = (if ecc_due then
                  (case check_ecc_errors (py_int P) (ecc_command P i) (gpu_key i) of
                     Some n \<Rightarrow> s0\<lparr>ecc_errors := Some n\<rparr>
                   | None \<Rightarrow> s0)
                else s0);
          self1 = (if ecc_due then self\<lparr>last_ecc_check := t\<rparr> else self);
          power_due = (t - last_power_check self1 \<ge> 300);
          s2 = (if power_due then
                  (case check_power_errors (power_command P i) of
                     Some e \<Rightarrow> (if e \<noteq> [] then s1\<lparr>power_error := Some e\<rparr> else s1)
                   | None \<Rightarrow> s1)
                else s1);
          self2 = (if power_due then self1\<lparr>last_power_check := t\<rparr> else self1);
          driver_due = (t - last_driver_check self2 \<ge> 86400);
          self3 = (if driver_due then
                     self2\<lparr>self_driver_version := get_driver_version (driver_command P i),
                           last_driver_check := t\<rparr>
                   else self2);
          s3 = s2\<lparr>driver_version := Some (self_driver_version self3),
                  nvidia_smi_ok := Some (check_nvidia_smi_hang (smi_command P i))\<rparr>
      in (self3, s3))"

text \<open>
  The loop of \<open>get_metrics\<close> over \<open>range(self.device_count)\<close> at the time \<open>t\<close>. A read of
  the driver library that raises ends the loop (the \<open>except\<close> is outside it) and the
  metrics gathered so far are returned. The device's dictionary is stored once, complete,
  at the place where the source first stores it.
\<close>

fun get_metrics_loop ::
  "provider \<Rightarrow> real \<Rightarrow> nat list \<Rightarrow> GPUMonitor \<Rightarrow> metrics_dict \<Rightarrow> GPUMonitor \<times> metrics_dict" where
  "get_metrics_loop P t [] self m = (self, m)"
| "get_metrics_loop P t (i # rest) self m =
     (case basic_metrics P i of
        None \<Rightarrow> (self, m)
      | Some b \<Rightarrow>
          (case device_pass P t i self b of
             (self', s) \<Rightarrow> get_metrics_loop P t rest self' (dict_set (gpu_key i) s m)))"

definition get_metrics :: "provider \<Rightarrow> real \<Rightarrow> GPUMonitor \<Rightarrow> GPUMonitor \<times> metrics_dict" where
  "get_metrics P t self = get_metrics_loop P t [0..<nat (device_count self)] self []"

section \<open>Sample values\<close>

text \<open>A device at rest: 70 degrees, a tenth of the memory in use, half load, driver 550.\<close>

definition quiet_sample :: sample where
  "quiet_sample =
     \<lparr>name = [71, 80, 85], memory_used = 1000, memory_total = 10000, memory_free = 9000,
      utilization_gpu = 50, utilization_memory = 10, temperature = 70, power_draw = 100,
      ecc_errors = None, power_error = None, driver_version = Some (Some [53, 53, 48]),
      nvidia_smi_ok = Some True\<rparr>"

definition plain_formatters :: formatters where
  "plain_formatters =
     \<lparr>str_num = (\<lambda>_. [63]), fmt_pct1 = (\<lambda>_. [63]), fmt_f1 = (\<lambda>_. [63]), isoformat = (\<lambda>_. [63])\<rparr>"

text \<open>A detector of window size \<open>ws\<close> whose only window, for \<open>gpu_0\<close>, is \<open>w\<close>.\<close>

definition detector_with :: "int \<Rightarrow> sample list \<Rightarrow> GPUAnomalyDetector" where
  "detector_with ws w =
     \<lparr>window_size = ws, history = [gpu_key 0 \<mapsto> w], thresholds = default_thresholds\<rparr>"

text \<open>Two devices; the ECC command prints a count for each (0 and 3), and \<open>int()\<close> reads
  those two. A monitor as \<open>__init__\<close> leaves it, with every time stamp at 0.\<close>

definition two_gpu_provider :: provider where
  "two_gpu_provider =
     \<lparr>basic_metrics = (\<lambda>i. Some quiet_sample),
      ecc_command = (\<lambda>i. (True, [120, 58, 32, 48, 10, 121, 58, 32, 51])),
      power_command = (\<lambda>i. (True, [])),
      driver_command = (\<lambda>i. (True, [53, 53, 48])),
      smi_command = (\<lambda>i. (True, [])),
      py_int = (\<lambda>s. if s = [48] then Some 0 else if s = [51] then Some 3 else None)\<rparr>"

definition fresh_monitor :: GPUMonitor where
  "fresh_monitor =
     \<lparr>device_count = 2, self_driver_version = Some [53, 53, 48], last_ecc_check = 0,
      last_power_check = 0, last_driver_check = 0\<rparr>"


section \<open>Conditions of the classifier, for stating its properties\<close>

text \<open>The window of a device; a device without a window has the empty one.\<close>

definition window :: "GPUAnomalyDetector \<Rightarrow> pystr \<Rightarrow> sample list" where
  "window d g = (case history d g of None \<Rightarrow> [] | Some w \<Rightarrow> w)"

text \<open>
  The CRITICAL and the FLUCTUATING conditions as the specification lists them, read on the
  latest sample of the window. The memory ratio exists only when \<open>memory_total\<close> is not
  zero.
\<close>

definition spec_critical :: "StatusThreshold \<Rightarrow> sample list \<Rightarrow> bool" where
  "spec_critical T w \<longleftrightarrow>
     w = []
     \<or> nvidia_smi_ok (last w) = Some False
     \<or> (case power_error (last w) of None \<Rightarrow> False | Some e \<Rightarrow> e \<noteq> [])
     \<or> (case ecc_errors (last w) of None \<Rightarrow> False | Some n \<Rightarrow> n > 0)
     \<or> temperature (last w) \<ge> temp_critical T
     \<or> (memory_total (last w) \<noteq> 0
        \<and> memory_used (last w) / memory_total (last w) \<ge> memory_critical T)"

definition spec_fluctuating :: "StatusThreshold \<Rightarrow> sample list \<Rightarrow> bool" where
  "spec_fluctuating T w \<longleftrightarrow>
     (length w \<ge> 3 \<and> np_std (map utilization_gpu w) \<ge> util_std_warning T)
     \<or> (length w \<ge> 3 \<and> np_std (map power_draw w) \<ge> power_std_warning T)
     \<or> temperature (last w) \<ge> temp_warning T
     \<or> (memory_total (last w) \<noteq> 0
        \<and> memory_used (last w) / memory_total (last w) \<ge> memory_high T)"

text \<open>The \<open>driver_version\<close> values on which \<open>.split()[0]\<close> raises: \<open>None\<close>, and a string
  without a non-whitespace character.\<close>

definition driver_unusable :: "sample \<Rightarrow> bool" where
  "driver_unusable s \<longleftrightarrow>
     (case driver_version s of
        None \<Rightarrow> False
      | Some None \<Rightarrow> True
      | Some (Some v) \<Rightarrow> (\<forall>c\<in>set v. is_space c))"


section \<open>Reading the events of a broadcast\<close>

text \<open>The connection of an event, the delivery it attempted (if it came that far), and
  whether the send raised.\<close>

fun event_connection :: "event \<Rightarrow> connection" where
  "event_connection (Sent c e) = c"
| "event_connection (SendFailed c e) = c"
| "event_connection (ClassifyFailed c g e) = c"

fun attempted :: "event \<Rightarrow> (connection \<times> envelope) option" where
  "attempted (Sent c e) = Some (c, e)"
| "attempted (SendFailed c e) = Some (c, e)"
| "attempted (ClassifyFailed c g e) = None"

fun send_failed :: "event \<Rightarrow> bool" where
  "send_failed (Sent c e) = False"
| "send_failed (SendFailed c e) = True"
| "send_failed (ClassifyFailed c g e) = False"

text \<open>What \<open>update\<close> does to one window: append, then drop the head once if too long.\<close>

definition push_window :: "int \<Rightarrow> sample list \<Rightarrow> sample \<Rightarrow> sample list" where
  "push_window ws w s = (if int (length (w @ [s])) > ws then tl (w @ [s]) else w @ [s])"

text \<open>The devices that \<open>metrics.items()\<close> yields before the device \<open>g\<close>.\<close>

definition listed_before :: "pystr \<Rightarrow> metrics_dict \<Rightarrow> pystr set" where
  "listed_before g ms = set (map fst (takeWhile (\<lambda>p. fst p \<noteq> g) ms))"

text \<open>Two subscribers and a snapshot of one device; a send that raises for subscriber 1
  only, and one that never raises. Then a snapshot of two devices whose driver version is
  \<open>None\<close>, as \<open>_get_driver_version\<close> returns when the command prints nothing.\<close>

definition two_subscribers :: WebSocketManager where
  "two_subscribers =
     \<lparr>active_connections = [1, 2], gpu_monitor = BaseMonitor_init 50,
      anomaly_detector = GPUAnomalyDetector_init 10\<rparr>"

definition one_device_data :: envelope where
  "one_device_data = \<lparr>timestamp = [63], metrics = [(gpu_key 0, quiet_sample)], status = None\<rparr>"

definition first_fails :: "connection \<Rightarrow> envelope \<Rightarrow> bool" where
  "first_fails c e \<longleftrightarrow> c \<noteq> 1"

definition all_succeed :: "connection \<Rightarrow> envelope \<Rightarrow> bool" where
  "all_succeed c e \<longleftrightarrow> True"

definition no_driver_sample :: sample where
  "no_driver_sample = quiet_sample\<lparr>driver_version := Some None\<rparr>"

definition two_device_data :: envelope where
  "two_device_data =
     \<lparr>timestamp = [63], metrics = [(gpu_key 0, no_driver_sample), (gpu_key 1, no_driver_sample)],
      status = None\<rparr>"


text \<open>The detector after the first \<open>n\<close> passes of the loop of \<open>broadcast\<close>: each pass runs the
  inner loop once, whatever the send does afterwards.\<close>

fun classified_after ::
  "formatters \<Rightarrow> GPUAnomalyDetector \<Rightarrow> metrics_dict \<Rightarrow> nat \<Rightarrow> GPUAnomalyDetector" where
  "classified_after F det ms 0 = det"
| "classified_after F det ms (Suc n) = classified_after F (fst (classify_all F det ms [])) ms n"

text \<open>What the pass for the connection \<open>c\<close> records when it starts from the detector
  \<open>det\<close>: the classification raised, or the envelope was sent, or the send raised.\<close>

definition pass_event ::
  "formatters \<Rightarrow> (connection \<Rightarrow> envelope \<Rightarrow> bool) \<Rightarrow> GPUAnomalyDetector \<Rightarrow> envelope \<Rightarrow>
     connection \<Rightarrow> event" where
  "pass_event F send det data c =
     (case snd (classify_all F det (metrics data) []) of
        Inl ge \<Rightarrow> ClassifyFailed c (fst ge) (snd ge)
      | Inr status_info \<Rightarrow>
          (if send c (data\<lparr>status := Some status_info\<rparr>)
           then Sent c (data\<lparr>status := Some status_info\<rparr>)
           else SendFailed c (data\<lparr>status := Some status_info\<rparr>)))"

text \<open>A sample on which \<open>detect\<close> cannot raise: the division and the driver tag are safe.\<close>

definition sample_usable :: "sample \<Rightarrow> bool" where
  "sample_usable m \<longleftrightarrow> memory_total m \<noteq> 0 \<and> \<not> driver_unusable m"

text \<open>Two subscribers and a detector of capacity 3 whose window has one sample under full
  load between two at half load, all without a driver version; and a snapshot with one
  more sample at half load.\<close>

definition settling_manager :: WebSocketManager where
  "settling_manager =
     \<lparr>active_connections = [1, 2], gpu_monitor = BaseMonitor_init 50,
      anomaly_detector =
        detector_with 3 [no_driver_sample, no_driver_sample\<lparr>utilization_gpu := 100\<rparr>,
                         no_driver_sample]\<rparr>"

definition no_driver_data :: envelope where
  "no_driver_data = \<lparr>timestamp = [63], metrics = [(gpu_key 0, no_driver_sample)], status = None\<rparr>"


section \<open>The body of \<open>detect\<close>, statement by statement\<close>

text \<open>
  To say what a call of \<open>detect\<close> does to the detector, its body is written once more as
  the sequence of its statements over the detector object and the local variables. The
  locals \<open>critical_reasons\<close>, \<open>warnings\<close> and \<open>status_desc\<close> are new lists that the body
  changes with \<open>append\<close>; \<open>memory_usage\<close> is a number. The locals \<open>history\<close> and
  \<open>latest\<close> are names for objects inside the detector, so they are read through it
  (\<open>history_var\<close>, \<open>latest_var\<close>) and not copied. A statement ends the call with a result
  (\<open>Some\<close>: a \<open>return\<close> or an exception) or goes on to the next one (\<open>None\<close>).
\<close>

type_synonym outcome = "py_error + (GPUStatus \<times> pystr)"

record detect_frame =
  self_obj :: GPUAnomalyDetector
  critical_reasons_var :: "pystr list"
  memory_usage_var :: real
  warnings_var :: "pystr list"
  status_desc_var :: "pystr list"

type_synonym statement = "detect_frame \<Rightarrow> outcome option \<times> detect_frame"

definition history_var :: "detect_frame \<Rightarrow> pystr \<Rightarrow> sample list" where
  "history_var fr gpu_id = (case history (self_obj fr) gpu_id of None \<Rightarrow> [] | Some h \<Rightarrow> h)"

definition latest_var :: "detect_frame \<Rightarrow> pystr \<Rightarrow> sample" where
  "latest_var fr gpu_id = last (history_var fr gpu_id)"

text \<open>Run a statement; go on with the rest unless it ended the call.\<close>

definition then_block ::
  "statement \<Rightarrow> (detect_frame \<Rightarrow> outcome \<times> detect_frame) \<Rightarrow> detect_frame \<Rightarrow> outcome \<times> detect_frame" where
  "then_block st rest fr = (case st fr of (Some r, fr') \<Rightarrow> (r, fr') | (None, fr') \<Rightarrow> rest fr')"

text \<open>The statements, in the order of the source.\<close>

definition stmt_no_data :: "pystr \<Rightarrow> statement" where
  "stmt_no_data gpu_id fr =
     (if history (self_obj fr) gpu_id = None \<or> history_var fr gpu_id = []
      then (Some (Inr (CRITICAL, msg_no_data)), fr) else (None, fr))"

definition stmt_init_critical :: statement where
  "stmt_init_critical fr = (None, fr\<lparr>critical_reasons_var := []\<rparr>)"

definition stmt_smi :: "pystr \<Rightarrow> statement" where
  "stmt_smi gpu_id fr =
     (if nvidia_smi_ok (latest_var fr gpu_id) = Some False
      then (Some (Inr (CRITICAL, msg_smi)), fr) else (None, fr))"

definition stmt_power :: "pystr \<Rightarrow> statement" where
  "stmt_power gpu_id fr =
     (case power_error (latest_var fr gpu_id) of
        None \<Rightarrow> (None, fr)
      | Some e \<Rightarrow> (if e \<noteq> [] then (Some (Inr (CRITICAL, msg_power @ e)), fr) else (None, fr)))"

definition stmt_ecc :: "pystr \<Rightarrow> statement" where
  "stmt_ecc gpu_id fr =
     (case ecc_errors (latest_var fr gpu_id) of
        None \<Rightarrow> (None, fr)
      | Some n \<Rightarrow>
          (if n > 0
           then (None, fr\<lparr>critical_reasons_var :=
                           critical_reasons_var fr @ [msg_ecc @ str_int n @ msg_times]\<rparr>)
           else (None, fr)))"

definition stmt_temp_critical :: "formatters \<Rightarrow> pystr \<Rightarrow> statement" where
  "stmt_temp_critical F gpu_id fr =
     (if temperature (latest_var fr gpu_id) \<ge> temp_critical (thresholds (self_obj fr))
      then (None, fr\<lparr>critical_reasons_var := critical_reasons_var fr
                      @ [msg_temp_critical @ str_num F (temperature (latest_var fr gpu_id))
                         @ msg_degrees]\<rparr>)
      else (None, fr))"

definition stmt_memory_usage :: "pystr \<Rightarrow> statement" where
  "stmt_memory_usage gpu_id fr =
     (if memory_total (latest_var fr gpu_id) = 0 then (Some (Inl ZeroDivisionError), fr)
      else (None, fr\<lparr>memory_usage_var :=
                      memory_used (latest_var fr gpu_id) / memory_total (latest_var fr gpu_id)\<rparr>))"

definition stmt_memory_critical :: "formatters \<Rightarrow> statement" where
  "stmt_memory_critical F fr =
     (if memory_usage_var fr \<ge> memory_critical (thresholds (self_obj fr))
      then (None, fr\<lparr>critical_reasons_var := critical_reasons_var fr
                      @ [msg_mem_critical @ fmt_pct1 F (memory_usage_var fr) @ msg_close]\<rparr>)
      else (None, fr))"

definition stmt_return_critical :: statement where
  "stmt_return_critical fr =
     (if critical_reasons_var fr \<noteq> []
      then (Some (Inr (CRITICAL, join msg_sep (critical_reasons_var fr))), fr) else (None, fr))"

definition stmt_init_warnings :: statement where
  "stmt_init_warnings fr = (None, fr\<lparr>warnings_var := []\<rparr>)"

definition stmt_std :: "formatters \<Rightarrow> pystr \<Rightarrow> statement" where
  "stmt_std F gpu_id fr =
     (if length (history_var fr gpu_id) \<ge> 3 then
        (let util_std = np_std (map utilization_gpu (history_var fr gpu_id));
             power_std = np_std (map power_draw (history_var fr gpu_id));
             fr1 = (if util_std \<ge> util_std_warning (thresholds (self_obj fr))
                    then fr\<lparr>warnings_var := warnings_var fr
                              @ [msg_util_std @ fmt_f1 F util_std @ msg_close]\<rparr>
                    else fr);
             fr2 = (if power_std \<ge> power_std_warning (thresholds (self_obj fr1))
                    then fr1\<lparr>warnings_var := warnings_var fr1
                               @ [msg_power_std @ fmt_f1 F power_std @ msg_close]\<rparr>
                    else fr1)
         in (None, fr2))
      else (None, fr))"

definition stmt_temp_warning :: "formatters \<Rightarrow> pystr \<Rightarrow> statement" where
  "stmt_temp_warning F gpu_id fr =
     (if temperature (latest_var fr gpu_id) \<ge> temp_warning (thresholds (self_obj fr))
      then (None, fr\<lparr>warnings_var := warnings_var fr
                      @ [msg_temp_warning @ str_num F (temperature (latest_var fr gpu_id))
                         @ msg_degrees]\<rparr>)
      else (None, fr))"

definition stmt_memory_warning :: "formatters \<Rightarrow> statement" where
  "stmt_memory_warning F fr =
     (if memory_usage_var fr \<ge> memory_high (thresholds (self_obj fr))
      then (None, fr\<lparr>warnings_var := warnings_var fr
                      @ [msg_mem_warning @ fmt_pct1 F (memory_usage_var fr) @ msg_close]\<rparr>)
      else (None, fr))"

definition stmt_return_warnings :: statement where
  "stmt_return_warnings fr =
     (if warnings_var fr \<noteq> []
      then (Some (Inr (FLUCTUATING, join msg_sep (warnings_var fr))), fr) else (None, fr))"

definition stmt_load :: "pystr \<Rightarrow> statement" where
  "stmt_load gpu_id fr =
     (let util = utilization_gpu (latest_var fr gpu_id);
          fr0 = fr\<lparr>status_desc_var := []\<rparr>
      in if util < util_low (thresholds (self_obj fr0))
         then (None, fr0\<lparr>status_desc_var := status_desc_var fr0 @ [msg_low_load]\<rparr>)
         else if util > util_normal (thresholds (self_obj fr0))
         then (None, fr0\<lparr>status_desc_var := status_desc_var fr0 @ [msg_high_load]\<rparr>)
         else (None, fr0\<lparr>status_desc_var := status_desc_var fr0 @ [msg_normal_load]\<rparr>))"

definition stmt_high_memory :: statement where
  "stmt_high_memory fr =
     (if memory_usage_var fr > memory_normal (thresholds (self_obj fr))
      then (None, fr\<lparr>status_desc_var := status_desc_var fr @ [msg_high_memory]\<rparr>)
      else (None, fr))"

definition stmt_driver :: "pystr \<Rightarrow> statement" where
  "stmt_driver gpu_id fr =
     (case driver_version (latest_var fr gpu_id) of
        None \<Rightarrow> (None, fr)
      | Some None \<Rightarrow> (Some (Inl AttributeError), fr)
      | Some (Some v) \<Rightarrow>
          (case py_split v of
             [] \<Rightarrow> (Some (Inl IndexError), fr)
           | w # _ \<Rightarrow> (None, fr\<lparr>status_desc_var := status_desc_var fr @ [msg_driver @ w]\<rparr>)))"

definition stmt_return_normal :: "detect_frame \<Rightarrow> outcome \<times> detect_frame" where
  "stmt_return_normal fr =
     (Inr (NORMAL, if join msg_sep (status_desc_var fr) \<noteq> [] then join msg_sep (status_desc_var fr)
                   else msg_running), fr)"

definition detect_statements :: "formatters \<Rightarrow> pystr \<Rightarrow> detect_frame \<Rightarrow> outcome \<times> detect_frame" where
  "detect_statements F gpu_id =
     then_block (stmt_no_data gpu_id)
    (then_block stmt_init_critical
    (then_block (stmt_smi gpu_id)
    (then_block (stmt_power gpu_id)
    (then_block (stmt_ecc gpu_id)
    (then_block (stmt_temp_critical F gpu_id)
    (then_block (stmt_memory_usage gpu_id)
    (then_block (stmt_memory_critical F)
    (then_block stmt_return_critical
    (then_block stmt_init_warnings
    (then_block (stmt_std F gpu_id)
    (then_block (stmt_temp_warning F gpu_id)
    (then_block (stmt_memory_warning F)
    (then_block stmt_return_warnings
    (then_block (stmt_load gpu_id)
    (then_block stmt_high_memory
    (then_block (stmt_driver gpu_id)
     stmt_return_normal))))))))))))))))"

text \<open>A call of the method: the result, and the detector object after the call. The locals
  are unbound at the start; each is assigned before it is read.\<close>

definition detect_method ::
  "formatters \<Rightarrow> GPUAnomalyDetector \<Rightarrow> pystr \<Rightarrow> outcome \<times> GPUAnomalyDetector" where
  "detect_method F self gpu_id =
     (case detect_statements F gpu_id
             \<lparr>self_obj = self, critical_reasons_var = [], memory_usage_var = 0,
              warnings_var = [], status_desc_var = []\<rparr> of
        (r, fr) \<Rightarrow> (r, self_obj fr))"



section \<open>Properties of the history window\<close>

lemma update_window_size: "window_size (update d g m) = window_size d"
  by (simp add: update_def Let_def)

lemma update_thresholds: "thresholds (update d g m) = thresholds d"
  by (simp add: update_def Let_def)

lemma update_other: "g' \<noteq> g \<Longrightarrow> history (update d g m) g' = history d g'"
  by (simp add: update_def Let_def)

lemma update_same:
  "history (update d g m) g =
     Some (let h1 = (case history d g of None \<Rightarrow> [] | Some h \<Rightarrow> h) @ [m]
           in if int (length h1) > window_size d then tl h1 else h1)"
  by (simp add: update_def Let_def)

lemma push_drop:
  assumes "0 \<le> ws"
  shows "(let h1 = drop (length xs - nat ws) xs @ [m]
          in if int (length h1) > ws then tl h1 else h1)
         = drop (length (xs @ [m]) - nat ws) (xs @ [m])"
proof (cases "length xs < nat ws")
  case True
  then have "\<not> ws < 1 + int (length xs)" by linarith
  then show ?thesis using True by (simp add: Let_def)
next
  case False
  then have le: "nat ws \<le> length xs" by simp
  have len: "length (drop (length xs - nat ws) xs) = nat ws" using le by simp
  have gt: "int (length (drop (length xs - nat ws) xs @ [m])) > ws"
    using len assms by simp
  have "tl (drop (length xs - nat ws) xs @ [m]) = drop (length (xs @ [m]) - nat ws) (xs @ [m])"
  proof (cases "nat ws = 0")
    case True
    then show ?thesis by simp
  next
    case False
    then have ne: "drop (length xs - nat ws) xs \<noteq> []" using le by simp
    have s: "Suc (length xs - nat ws) = Suc (length xs) - nat ws" using le by simp
    have "tl (drop (length xs - nat ws) xs @ [m]) = drop (Suc (length xs - nat ws)) xs @ [m]"
      using ne by (simp add: tl_drop drop_Suc)
    also have "\<dots> = drop (Suc (length xs) - nat ws) (xs @ [m])"
      unfolding s using False le by simp
    finally show ?thesis by simp
  qed
  then show ?thesis using gt by (simp add: Let_def)
qed

lemma updates_snoc: "updates d (us @ [(g, m)]) = update (updates d us) g m"
  by (simp add: updates_def)

lemma updates_window_size: "window_size (updates d us) = window_size d"
  by (induction us rule: rev_induct) (auto simp: updates_def update_window_size)

lemma updates_history:
  assumes "0 \<le> ws"
  shows "history (updates (GPUAnomalyDetector_init ws) us) g =
     (if calls_for g us = [] then None
      else Some (drop (length (calls_for g us) - nat ws) (calls_for g us)))"
proof (induction us rule: rev_induct)
  case Nil
  show ?case by (simp add: updates_def GPUAnomalyDetector_init_def calls_for_def)
next
  case (snoc u us)
  obtain g' m where u: "u = (g', m)" by (cases u)
  let ?d = "updates (GPUAnomalyDetector_init ws) us"
  have ws: "window_size ?d = ws" by (simp add: updates_window_size GPUAnomalyDetector_init_def)
  show ?case
  proof (cases "g' = g")
    case False
    then show ?thesis using snoc u by (simp add: updates_snoc update_other calls_for_def)
  next
    case True
    have cf: "calls_for g (us @ [u]) = calls_for g us @ [m]" using True u by (simp add: calls_for_def)
    have old: "(case history ?d g of None \<Rightarrow> [] | Some h \<Rightarrow> h) = drop (length (calls_for g us) - nat ws) (calls_for g us)"
      using snoc by simp
    have "history (updates (GPUAnomalyDetector_init ws) (us @ [u])) g =
          Some (drop (length (calls_for g us @ [m]) - nat ws) (calls_for g us @ [m]))"
      unfolding u True updates_snoc update_same old ws
      using push_drop[OF assms, of "calls_for g us" m] by (simp only:)
    then show ?thesis unfolding cf by simp
  qed
qed


text \<open>
  C7. Start from a new detector of capacity \<open>ws \<ge> 0\<close> and make any sequence of \<open>update\<close>
  calls. A device that no call named has no window. The window of any other device is the
  last \<open>ws\<close> of the samples the calls gave it, in the order of the calls, so the newest is
  last, the oldest are the ones evicted, and the length never exceeds \<open>ws\<close>.
\<close>

theorem history_window_fifo:
  assumes "0 \<le> ws"
  shows "history (updates (GPUAnomalyDetector_init ws) calls) g =
           (if calls_for g calls = [] then None
            else Some (drop (length (calls_for g calls) - nat ws) (calls_for g calls)))
         \<and> (\<forall>w. history (updates (GPUAnomalyDetector_init ws) calls) g = Some w
                \<longrightarrow> int (length w) \<le> ws)"
proof -
  have h: "history (updates (GPUAnomalyDetector_init ws) calls) g =
           (if calls_for g calls = [] then None
            else Some (drop (length (calls_for g calls) - nat ws) (calls_for g calls)))"
    by (rule updates_history[OF assms])
  have "int (length (drop (length (calls_for g calls) - nat ws) (calls_for g calls))) \<le> ws"
    using assms by simp
  with h show ?thesis by (auto split: if_splits)
qed

theorem history_window_fifo_witness:
  "(0::int) \<le> 2
   \<and> history (updates (GPUAnomalyDetector_init 2)
        [(gpu_key 0, quiet_sample\<lparr>temperature := 1\<rparr>), (gpu_key 1, quiet_sample),
         (gpu_key 0, quiet_sample\<lparr>temperature := 2\<rparr>),
         (gpu_key 0, quiet_sample\<lparr>temperature := 3\<rparr>)]) (gpu_key 0)
     = Some [quiet_sample\<lparr>temperature := 2\<rparr>, quiet_sample\<lparr>temperature := 3\<rparr>]
   \<and> history (updates (GPUAnomalyDetector_init 2)
        [(gpu_key 0, quiet_sample\<lparr>temperature := 1\<rparr>), (gpu_key 1, quiet_sample),
         (gpu_key 0, quiet_sample\<lparr>temperature := 2\<rparr>),
         (gpu_key 0, quiet_sample\<lparr>temperature := 3\<rparr>)]) (gpu_key 2) = None"
  using history_window_fifo [of 2
        "[(gpu_key 0, quiet_sample\<lparr>temperature := 1\<rparr>), (gpu_key 1, quiet_sample),
         (gpu_key 0, quiet_sample\<lparr>temperature := 2\<rparr>),
         (gpu_key 0, quiet_sample\<lparr>temperature := 3\<rparr>)]" "gpu_key 0"]
      history_window_fifo [of 2
        "[(gpu_key 0, quiet_sample\<lparr>temperature := 1\<rparr>), (gpu_key 1, quiet_sample),
         (gpu_key 0, quiet_sample\<lparr>temperature := 2\<rparr>),
         (gpu_key 0, quiet_sample\<lparr>temperature := 3\<rparr>)]" "gpu_key 2"]
  by (simp add: calls_for_def gpu_key_def str_nat.simps)

section \<open>Properties of the classifier\<close>

lemma critical_reasons_empty:
  "critical_reasons F T s u = [] \<longleftrightarrow>
     (case ecc_errors s of None \<Rightarrow> True | Some n \<Rightarrow> n \<le> 0)
     \<and> temperature s < temp_critical T \<and> u < memory_critical T"
  by (auto simp: critical_reasons_def split: option.splits)

lemma warnings_empty:
  "warnings F T w s u = [] \<longleftrightarrow>
     (length w \<ge> 3 \<longrightarrow> np_std (map utilization_gpu w) < util_std_warning T
                        \<and> np_std (map power_draw w) < power_std_warning T)
     \<and> temperature s < temp_warning T \<and> u < memory_high T"
  by (auto simp: warnings_def Let_def)

lemma split_acc_empty: "split_acc cur s = [] \<longleftrightarrow> cur = [] \<and> (\<forall>c\<in>set s. is_space c)"
  by (induction s arbitrary: cur) auto

lemma py_split_empty: "py_split s = [] \<longleftrightarrow> (\<forall>c\<in>set s. is_space c)"
  by (simp add: py_split_def split_acc_empty)

lemma status_desc_raises:
  "(\<exists>e. status_desc T s u = Inl e) \<longleftrightarrow> driver_unusable s"
  by (auto simp: status_desc_def driver_unusable_def Let_def py_split_empty[symmetric]
           split: option.splits list.splits)

lemma detect_window:
  "detect F d g =
     (if window d g = [] then Inr (CRITICAL, msg_no_data)
      else if nvidia_smi_ok (last (window d g)) = Some False then Inr (CRITICAL, msg_smi)
      else (case power_error_set (last (window d g)) of
              Some e \<Rightarrow> Inr (CRITICAL, msg_power @ e)
            | None \<Rightarrow> detect_rest F (thresholds d) (window d g) (last (window d g))))"
  by (simp add: detect_def window_def split: option.splits)

lemma power_error_set_None:
  "power_error_set s = None \<longleftrightarrow> \<not> (case power_error s of None \<Rightarrow> False | Some e \<Rightarrow> e \<noteq> [])"
  by (simp add: power_error_set_def split: option.splits)

lemma detect_rest_status:
  assumes "memory_total s \<noteq> 0"
  shows "detect_rest F T w s =
     (if critical_reasons F T s (memory_used s / memory_total s) \<noteq> []
      then Inr (CRITICAL, join msg_sep (critical_reasons F T s (memory_used s / memory_total s)))
      else if warnings F T w s (memory_used s / memory_total s) \<noteq> []
      then Inr (FLUCTUATING, join msg_sep (warnings F T w s (memory_used s / memory_total s)))
      else (case status_desc T s (memory_used s / memory_total s) of
              Inl e \<Rightarrow> Inl e
            | Inr desc \<Rightarrow> Inr (NORMAL, if join msg_sep desc \<noteq> [] then join msg_sep desc
                                       else msg_running)))"
  using assms by (simp add: detect_rest_def Let_def)


lemma detect_rest_zero: "memory_total s = 0 \<Longrightarrow> detect_rest F T w s = Inl ZeroDivisionError"
  by (simp add: detect_rest_def)




text \<open>
  C4, as amended. For a non-empty window whose latest sample has the liveness flag true and
  a non-empty \<open>power_error\<close>, \<open>detect\<close> returns CRITICAL and the reason is the label
  \<open>msg_power\<close> followed by the field's content. No other field of the sample is read: the
  result is the same whatever they hold, also when \<open>memory_total\<close> is zero.
\<close>

theorem power_error_reason:
  assumes "history d g = Some w" and "w \<noteq> []"
    and "nvidia_smi_ok (last w) = Some True"
    and "power_error (last w) = Some e" and "e \<noteq> []"
  shows "detect F d g = Inr (CRITICAL, msg_power @ e)"
  using assms by (simp add: detect_def power_error_set_def)

lemma detect_raises_iff:
  assumes "history d g = Some w" and "w \<noteq> []"
  shows "(\<exists>e. detect F d g = Inl e) \<longleftrightarrow>
           nvidia_smi_ok (last w) \<noteq> Some False \<and> power_error_set (last w) = None
           \<and> (memory_total (last w) = 0
              \<or> (\<not> spec_critical (thresholds d) w \<and> \<not> spec_fluctuating (thresholds d) w
                 \<and> driver_unusable (last w)))"
proof -
  have w: "window d g = w" using assms(1) by (simp add: window_def)
  show ?thesis
  proof (cases "nvidia_smi_ok (last w) \<noteq> Some False \<and> power_error_set (last w) = None")
    case False
    then show ?thesis using assms(2) w by (auto simp: detect_window)
  next
    case True
    note sc = True
    show ?thesis
    proof (cases "memory_total (last w) = 0")
      case True
      then show ?thesis using sc assms(2) w by (simp add: detect_window detect_rest_zero)
    next
      case False
      let ?u = "memory_used (last w) / memory_total (last w)"
      have c: "critical_reasons F (thresholds d) (last w) ?u = [] \<longleftrightarrow> \<not> spec_critical (thresholds d) w"
        using sc False assms(2)
        by (auto simp: critical_reasons_empty spec_critical_def power_error_set_None
                 split: option.splits)
      have f: "warnings F (thresholds d) w (last w) ?u = [] \<longleftrightarrow> \<not> spec_fluctuating (thresholds d) w"
        using False by (auto simp: warnings_empty spec_fluctuating_def)
      have d: "detect F d g = detect_rest F (thresholds d) w (last w)"
        using sc assms(2) w by (simp add: detect_window)
      show ?thesis
        unfolding d detect_rest_status[OF False]
        using sc False c f status_desc_raises[of "thresholds d" "last w" ?u]
        by (auto split: sum.splits)
    qed
  qed
qed


text \<open>The reason is not the bare content of the field: the label comes first.\<close>

theorem power_error_reason_counterexample:
  "detect plain_formatters
     (detector_with 10 [quiet_sample\<lparr>power_error := Some [69, 114, 114]\<rparr>]) (gpu_key 0)
     = Inr (CRITICAL, msg_power @ [69, 114, 114])
   \<and> detect plain_formatters
     (detector_with 10 [quiet_sample\<lparr>power_error := Some [69, 114, 114]\<rparr>]) (gpu_key 0)
     \<noteq> Inr (CRITICAL, [69, 114, 114])"
  by (simp add: detect_def detector_with_def quiet_sample_def power_error_set_def msg_power_def)

theorem power_error_reason_witness:
  "history (detector_with 10 [quiet_sample\<lparr>memory_total := 0, power_error := Some [69]\<rparr>])
      (gpu_key 0) = Some [quiet_sample\<lparr>memory_total := 0, power_error := Some [69]\<rparr>]
   \<and> nvidia_smi_ok (last [quiet_sample\<lparr>memory_total := 0, power_error := Some [69]\<rparr>]) = Some True
   \<and> power_error (last [quiet_sample\<lparr>memory_total := 0, power_error := Some [69]\<rparr>]) = Some [69]
   \<and> detect plain_formatters
        (detector_with 10 [quiet_sample\<lparr>memory_total := 0, power_error := Some [69]\<rparr>])
        (gpu_key 0) = Inr (CRITICAL, msg_power @ [69])"
  using power_error_reason [of "detector_with 10 [quiet_sample\<lparr>memory_total := 0, power_error := Some [69]\<rparr>]"
      "gpu_key 0" "[quiet_sample\<lparr>memory_total := 0, power_error := Some [69]\<rparr>]" "[69]"
      plain_formatters]
  by (simp add: detector_with_def quiet_sample_def)








lemma then_block_self:
  assumes "\<And>fr. self_obj (snd (st fr)) = self_obj fr"
    and "\<And>fr. self_obj (snd (rest fr)) = self_obj fr"
  shows "self_obj (snd (then_block st rest fr)) = self_obj fr"
proof (cases "st fr")
  case (Pair r fr')
  have s: "self_obj fr' = self_obj fr" using assms(1)[of fr] Pair by simp
  show ?thesis
  proof (cases r)
    case None
    then show ?thesis using Pair s assms(2)[of fr'] by (simp add: then_block_def)
  next
    case (Some x)
    then show ?thesis using Pair s by (simp add: then_block_def)
  qed
qed

lemma stmt_no_data_self: "self_obj (snd (stmt_no_data g fr)) = self_obj fr"
  by (simp add: stmt_no_data_def)

lemma stmt_init_critical_self: "self_obj (snd (stmt_init_critical fr)) = self_obj fr"
  by (simp add: stmt_init_critical_def)

lemma stmt_smi_self: "self_obj (snd (stmt_smi g fr)) = self_obj fr"
  by (simp add: stmt_smi_def)

lemma stmt_power_self: "self_obj (snd (stmt_power g fr)) = self_obj fr"
  by (simp add: stmt_power_def split: option.splits)

lemma stmt_ecc_self: "self_obj (snd (stmt_ecc g fr)) = self_obj fr"
  by (simp add: stmt_ecc_def split: option.splits)

lemma stmt_temp_critical_self: "self_obj (snd (stmt_temp_critical F g fr)) = self_obj fr"
  by (simp add: stmt_temp_critical_def)

lemma stmt_memory_usage_self: "self_obj (snd (stmt_memory_usage g fr)) = self_obj fr"
  by (simp add: stmt_memory_usage_def)

lemma stmt_memory_critical_self: "self_obj (snd (stmt_memory_critical F fr)) = self_obj fr"
  by (simp add: stmt_memory_critical_def)

lemma stmt_return_critical_self: "self_obj (snd (stmt_return_critical fr)) = self_obj fr"
  by (simp add: stmt_return_critical_def)

lemma stmt_init_warnings_self: "self_obj (snd (stmt_init_warnings fr)) = self_obj fr"
  by (simp add: stmt_init_warnings_def)

lemma stmt_std_self: "self_obj (snd (stmt_std F g fr)) = self_obj fr"
  by (simp add: stmt_std_def Let_def)

lemma stmt_temp_warning_self: "self_obj (snd (stmt_temp_warning F g fr)) = self_obj fr"
  by (simp add: stmt_temp_warning_def)

lemma stmt_memory_warning_self: "self_obj (snd (stmt_memory_warning F fr)) = self_obj fr"
  by (simp add: stmt_memory_warning_def)

lemma stmt_return_warnings_self: "self_obj (snd (stmt_return_warnings fr)) = self_obj fr"
  by (simp add: stmt_return_warnings_def)

lemma stmt_load_self: "self_obj (snd (stmt_load g fr)) = self_obj fr"
  by (simp add: stmt_load_def Let_def)

lemma stmt_high_memory_self: "self_obj (snd (stmt_high_memory fr)) = self_obj fr"
  by (simp add: stmt_high_memory_def)

lemma stmt_driver_self: "self_obj (snd (stmt_driver g fr)) = self_obj fr"
  by (simp add: stmt_driver_def split: option.splits list.splits)

lemma stmt_return_normal_self: "self_obj (snd (stmt_return_normal fr)) = self_obj fr"
  by (simp add: stmt_return_normal_def)

lemma detect_statements_self: "self_obj (snd (detect_statements F g fr)) = self_obj fr"
  unfolding detect_statements_def
  by (intro then_block_self stmt_no_data_self stmt_init_critical_self stmt_smi_self
        stmt_power_self stmt_ecc_self stmt_temp_critical_self stmt_memory_usage_self
        stmt_memory_critical_self stmt_return_critical_self stmt_init_warnings_self
        stmt_std_self stmt_temp_warning_self stmt_memory_warning_self
        stmt_return_warnings_self stmt_load_self stmt_high_memory_self stmt_driver_self
        stmt_return_normal_self)

lemma detect_method_self: "snd (detect_method F d g) = d"
  using detect_statements_self [of F g "\<lparr>self_obj = d, critical_reasons_var = [],
      memory_usage_var = 0, warnings_var = [], status_desc_var = []\<rparr>"]
  by (auto simp: detect_method_def split: prod.splits)


lemma then_block_None: "st fr = (None, fr') \<Longrightarrow> then_block st rest fr = rest fr'"
  by (simp add: then_block_def)

lemma then_block_Some: "st fr = (Some r, fr') \<Longrightarrow> then_block st rest fr = (r, fr')"
  by (simp add: then_block_def)

lemma stmt_ecc_effect:
  "stmt_ecc g fr = (None, fr\<lparr>critical_reasons_var := critical_reasons_var fr @
      (case ecc_errors (latest_var fr g) of None \<Rightarrow> []
       | Some n \<Rightarrow> if n > 0 then [msg_ecc @ str_int n @ msg_times] else [])\<rparr>)"
  by (simp add: stmt_ecc_def split: option.splits)

lemma stmt_temp_critical_effect:
  "stmt_temp_critical F g fr = (None, fr\<lparr>critical_reasons_var := critical_reasons_var fr @
      (if temperature (latest_var fr g) \<ge> temp_critical (thresholds (self_obj fr))
       then [msg_temp_critical @ str_num F (temperature (latest_var fr g)) @ msg_degrees]
       else [])\<rparr>)"
  by (simp add: stmt_temp_critical_def)

lemma stmt_memory_critical_effect:
  "stmt_memory_critical F fr = (None, fr\<lparr>critical_reasons_var := critical_reasons_var fr @
      (if memory_usage_var fr \<ge> memory_critical (thresholds (self_obj fr))
       then [msg_mem_critical @ fmt_pct1 F (memory_usage_var fr) @ msg_close] else [])\<rparr>)"
  by (simp add: stmt_memory_critical_def)

lemma stmt_std_effect:
  "stmt_std F g fr = (None, fr\<lparr>warnings_var := warnings_var fr @
      (if length (history_var fr g) \<ge> 3 then
         (let util_std = np_std (map utilization_gpu (history_var fr g));
              power_std = np_std (map power_draw (history_var fr g))
          in (if util_std \<ge> util_std_warning (thresholds (self_obj fr))
              then [msg_util_std @ fmt_f1 F util_std @ msg_close] else [])
           @ (if power_std \<ge> power_std_warning (thresholds (self_obj fr))
              then [msg_power_std @ fmt_f1 F power_std @ msg_close] else []))
       else [])\<rparr>)"
  by (simp add: stmt_std_def Let_def)

lemma stmt_temp_warning_effect:
  "stmt_temp_warning F g fr = (None, fr\<lparr>warnings_var := warnings_var fr @
      (if temperature (latest_var fr g) \<ge> temp_warning (thresholds (self_obj fr))
       then [msg_temp_warning @ str_num F (temperature (latest_var fr g)) @ msg_degrees]
       else [])\<rparr>)"
  by (simp add: stmt_temp_warning_def)

lemma stmt_memory_warning_effect:
  "stmt_memory_warning F fr = (None, fr\<lparr>warnings_var := warnings_var fr @
      (if memory_usage_var fr \<ge> memory_high (thresholds (self_obj fr))
       then [msg_mem_warning @ fmt_pct1 F (memory_usage_var fr) @ msg_close] else [])\<rparr>)"
  by (simp add: stmt_memory_warning_def)

lemma stmt_load_effect:
  "stmt_load g fr = (None, fr\<lparr>status_desc_var :=
      (if utilization_gpu (latest_var fr g) < util_low (thresholds (self_obj fr))
       then [msg_low_load]
       else if utilization_gpu (latest_var fr g) > util_normal (thresholds (self_obj fr))
       then [msg_high_load] else [msg_normal_load])\<rparr>)"
  by (simp add: stmt_load_def Let_def)

lemma stmt_high_memory_effect:
  "stmt_high_memory fr = (None, fr\<lparr>status_desc_var := status_desc_var fr @
      (if memory_usage_var fr > memory_normal (thresholds (self_obj fr))
       then [msg_high_memory] else [])\<rparr>)"
  by (simp add: stmt_high_memory_def)

lemmas stmt_effects =
  stmt_ecc_effect stmt_temp_critical_effect stmt_memory_critical_effect stmt_std_effect
  stmt_temp_warning_effect stmt_memory_warning_effect stmt_load_effect stmt_high_memory_effect

lemma critical_phase:
  assumes "history (self_obj fr) g = Some w" and "critical_reasons_var fr = []"
    and "memory_total (last w) \<noteq> 0"
  shows "then_block (stmt_ecc g)
    (then_block (stmt_temp_critical F g)
    (then_block (stmt_memory_usage g)
    (then_block (stmt_memory_critical F) rest))) fr
   = rest (fr\<lparr>memory_usage_var := memory_used (last w) / memory_total (last w),
             critical_reasons_var :=
               critical_reasons F (thresholds (self_obj fr)) (last w)
                 (memory_used (last w) / memory_total (last w))\<rparr>)"
  using assms
  by (simp add: then_block_def stmt_ecc_effect stmt_temp_critical_effect stmt_memory_usage_def
        stmt_memory_critical_effect latest_var_def history_var_def critical_reasons_def)

lemma critical_phase_zero:
  assumes "history (self_obj fr) g = Some w" and "memory_total (last w) = 0"
  shows "fst (then_block (stmt_ecc g)
    (then_block (stmt_temp_critical F g)
    (then_block (stmt_memory_usage g) rest)) fr) = Inl ZeroDivisionError"
  using assms
  by (simp add: then_block_def stmt_ecc_effect stmt_temp_critical_effect stmt_memory_usage_def
        latest_var_def history_var_def)

lemma warning_phase:
  assumes "history (self_obj fr) g = Some w"
  shows "then_block stmt_init_warnings
    (then_block (stmt_std F g)
    (then_block (stmt_temp_warning F g)
    (then_block (stmt_memory_warning F) rest))) fr
   = rest (fr\<lparr>warnings_var :=
               warnings F (thresholds (self_obj fr)) w (last w) (memory_usage_var fr)\<rparr>)"
  using assms
  by (simp add: then_block_def stmt_init_warnings_def stmt_std_effect stmt_temp_warning_effect
        stmt_memory_warning_effect latest_var_def history_var_def warnings_def Let_def)

lemma description_phase:
  assumes "history (self_obj fr) g = Some w"
  shows "fst (then_block (stmt_load g)
    (then_block stmt_high_memory
    (then_block (stmt_driver g) stmt_return_normal)) fr)
   = (case status_desc (thresholds (self_obj fr)) (last w) (memory_usage_var fr) of
        Inl e \<Rightarrow> Inl e
      | Inr desc \<Rightarrow> Inr (NORMAL, if join msg_sep desc \<noteq> [] then join msg_sep desc
                                 else msg_running))"
proof -
  let ?d2 = "(if utilization_gpu (last w) < util_low (thresholds (self_obj fr)) then [msg_low_load]
              else if utilization_gpu (last w) > util_normal (thresholds (self_obj fr))
              then [msg_high_load] else [msg_normal_load])
             @ (if memory_usage_var fr > memory_normal (thresholds (self_obj fr))
                then [msg_high_memory] else [])"
  have prog: "then_block (stmt_load g)
    (then_block stmt_high_memory
    (then_block (stmt_driver g) stmt_return_normal)) fr
    = then_block (stmt_driver g) stmt_return_normal (fr\<lparr>status_desc_var := ?d2\<rparr>)"
    using assms
    by (simp add: then_block_def stmt_load_effect stmt_high_memory_effect latest_var_def
          history_var_def)
  have sd: "status_desc (thresholds (self_obj fr)) (last w) (memory_usage_var fr)
      = (case driver_version (last w) of
           None \<Rightarrow> Inr ?d2
         | Some None \<Rightarrow> Inl AttributeError
         | Some (Some v) \<Rightarrow>
             (case py_split v of [] \<Rightarrow> Inl IndexError | x # _ \<Rightarrow> Inr (?d2 @ [msg_driver @ x])))"
    by (simp add: status_desc_def Let_def)
  show ?thesis unfolding prog sd using assms
    by (simp add: then_block_def stmt_driver_def stmt_return_normal_def latest_var_def
          history_var_def split: option.splits list.splits)
qed

lemma detect_statements_rest:
  assumes "history d g = Some w" and "w \<noteq> []"
    and "self_obj fr = d" and "critical_reasons_var fr = []"
  shows "fst ((then_block (stmt_ecc g)
    (then_block (stmt_temp_critical F g)
    (then_block (stmt_memory_usage g)
    (then_block (stmt_memory_critical F)
    (then_block stmt_return_critical
    (then_block stmt_init_warnings
    (then_block (stmt_std F g)
    (then_block (stmt_temp_warning F g)
    (then_block (stmt_memory_warning F)
    (then_block stmt_return_warnings
    (then_block (stmt_load g)
    (then_block stmt_high_memory
    (then_block (stmt_driver g)
     stmt_return_normal))))))))))))) fr)
   = detect_rest F (thresholds d) w (last w)"
proof (cases "memory_total (last w) = 0")
  case True
  have h: "history (self_obj fr) g = Some w" using assms by simp
  show ?thesis unfolding critical_phase_zero[OF h True] using True by (simp add: detect_rest_def)
next
  case False
  have h: "history (self_obj fr) g = Some w" using assms by simp
  define u where "u = memory_used (last w) / memory_total (last w)"
  define c where "c = critical_reasons F (thresholds d) (last w) u"
  define wn where "wn = warnings F (thresholds d) w (last w) u"
  let ?fr1 = "fr\<lparr>memory_usage_var := u, critical_reasons_var := c\<rparr>"
  have h1: "history (self_obj ?fr1) g = Some w" using h by simp
  have r: "detect_rest F (thresholds d) w (last w) =
     (if c \<noteq> [] then Inr (CRITICAL, join msg_sep c)
      else if wn \<noteq> [] then Inr (FLUCTUATING, join msg_sep wn)
      else (case status_desc (thresholds d) (last w) u of
              Inl e \<Rightarrow> Inl e
            | Inr desc \<Rightarrow> Inr (NORMAL, if join msg_sep desc \<noteq> [] then join msg_sep desc
                                       else msg_running)))"
    unfolding c_def wn_def u_def by (rule detect_rest_status[OF False])
  show ?thesis
  proof (cases "c = []")
    case False
    then show ?thesis
      unfolding critical_phase[OF h assms(4) \<open>memory_total (last w) \<noteq> 0\<close>] r
      using assms(3) by (simp add: then_block_def stmt_return_critical_def c_def u_def)
  next
    case True
    note cnil = True
    let ?fr2 = "?fr1\<lparr>warnings_var := wn\<rparr>"
    have h2: "history (self_obj ?fr2) g = Some w" using h by simp
    have step1: "then_block stmt_return_critical
        (then_block stmt_init_warnings
        (then_block (stmt_std F g)
        (then_block (stmt_temp_warning F g)
        (then_block (stmt_memory_warning F) k)))) ?fr1 = k ?fr2" for k
      using cnil assms(3) warning_phase[OF h1, of F k]
      by (simp add: then_block_def stmt_return_critical_def wn_def)
    show ?thesis
    proof (cases "wn = []")
      case False
      show ?thesis
        unfolding critical_phase[OF h assms(4) \<open>memory_total (last w) \<noteq> 0\<close>] r
        unfolding c_def[symmetric] u_def[symmetric] assms(3) c_def[symmetric] step1
        using cnil False by (simp add: then_block_def stmt_return_warnings_def)
    next
      case True
      have step2: "fst (then_block stmt_return_warnings
          (then_block (stmt_load g)
          (then_block stmt_high_memory
          (then_block (stmt_driver g) stmt_return_normal))) ?fr2)
         = (case status_desc (thresholds d) (last w) u of
              Inl e \<Rightarrow> Inl e
            | Inr desc \<Rightarrow> Inr (NORMAL, if join msg_sep desc \<noteq> [] then join msg_sep desc
                                       else msg_running))"
        using True assms(3) description_phase[OF h2]
        by (simp add: then_block_def stmt_return_warnings_def)
      show ?thesis
        unfolding critical_phase[OF h assms(4) \<open>memory_total (last w) \<noteq> 0\<close>] r
        unfolding c_def[symmetric] u_def[symmetric] assms(3) c_def[symmetric] step1 step2
        using cnil True by simp
    qed
  qed
qed

lemma detect_method_result: "fst (detect_method F d g) = detect F d g"
proof -
  let ?fr = "\<lparr>self_obj = d, critical_reasons_var = [], memory_usage_var = 0,
      warnings_var = [], status_desc_var = []\<rparr>"
  have m: "fst (detect_method F d g) = fst (detect_statements F g ?fr)"
    by (simp add: detect_method_def split: prod.splits)
  show ?thesis
  proof (cases "history d g")
    case None
    then show ?thesis unfolding m
      by (simp add: detect_statements_def then_block_def stmt_no_data_def detect_def)
  next
    case (Some w)
    show ?thesis
    proof (cases "w = [] \<or> nvidia_smi_ok (last w) = Some False \<or> power_error_set (last w) \<noteq> None")
      case True
      then show ?thesis unfolding m using Some
        by (auto simp: detect_statements_def then_block_def stmt_no_data_def stmt_init_critical_def
              stmt_smi_def stmt_power_def detect_def history_var_def latest_var_def
              power_error_set_def split: option.splits if_splits)
    next
      case False
      then have ne: "w \<noteq> []" and smi: "nvidia_smi_ok (last w) \<noteq> Some False"
        and pe: "power_error_set (last w) = None" by simp_all
      have pe': "power_error (last w) = None \<or> power_error (last w) = Some []"
        using pe by (auto simp: power_error_set_def split: option.splits if_splits)
      have "fst (detect_statements F g ?fr) = detect_rest F (thresholds d) w (last w)"
        unfolding detect_statements_def
        using Some ne smi pe' detect_statements_rest[OF Some ne, of "?fr\<lparr>critical_reasons_var := []\<rparr>" F]
        by (auto simp: then_block_def stmt_no_data_def stmt_init_critical_def stmt_smi_def
              stmt_power_def history_var_def latest_var_def)
      then show ?thesis unfolding m using Some ne smi pe by (simp add: detect_def)
    qed
  qed
qed


text \<open>
  C8. A call of \<open>detect\<close> leaves the detector, and so every window, as it was: no statement
  of the body writes to it. A second call on the detector after the first returns what the
  first returned. The statements compute the function \<open>detect\<close>, and the result depends on
  the detector only through the window of the device and the thresholds: the same window
  gives the same status and reason.
\<close>

theorem detect_deterministic:
  "snd (detect_method F d g) = d
   \<and> fst (detect_method F (snd (detect_method F d g)) g) = fst (detect_method F d g)
   \<and> fst (detect_method F d g) = detect F d g
   \<and> (history d' g = history d g \<and> thresholds d' = thresholds d
        \<longrightarrow> fst (detect_method F d' g) = fst (detect_method F d g))"
proof -
  have 1: "snd (detect_method F d g) = d" by (rule detect_method_self)
  have 3: "fst (detect_method F d g) = detect F d g" by (rule detect_method_result)
  have 4: "history d' g = history d g \<and> thresholds d' = thresholds d
        \<longrightarrow> fst (detect_method F d' g) = fst (detect_method F d g)"
    by (auto simp: detect_method_result detect_def split: option.splits)
  from 1 3 4 show ?thesis by simp
qed

theorem detect_deterministic_witness:
  "history ((detector_with 3 [quiet_sample])\<lparr>history := [gpu_key 0 \<mapsto> [quiet_sample], gpu_key 1 \<mapsto> []]\<rparr>)
      (gpu_key 0) = history (detector_with 10 [quiet_sample]) (gpu_key 0)
   \<and> fst (detect_method plain_formatters
        ((detector_with 3 [quiet_sample])\<lparr>history := [gpu_key 0 \<mapsto> [quiet_sample], gpu_key 1 \<mapsto> []]\<rparr>)
        (gpu_key 0))
     = fst (detect_method plain_formatters (detector_with 10 [quiet_sample]) (gpu_key 0))
   \<and> snd (detect_method plain_formatters (detector_with 10 [quiet_sample]) (gpu_key 0))
     = detector_with 10 [quiet_sample]"
  using detect_deterministic [of plain_formatters "detector_with 10 [quiet_sample]" "gpu_key 0"
      "(detector_with 3 [quiet_sample])\<lparr>history := [gpu_key 0 \<mapsto> [quiet_sample], gpu_key 1 \<mapsto> []]\<rparr>"]
  by (simp add: detector_with_def gpu_key_def str_nat.simps)

section \<open>Properties of the sample queue\<close>

lemma push_ok:
  assumes "0 < buffer_size q \<longrightarrow> int (length (data_queue q)) \<le> buffer_size q"
  shows "push q x = Some (q\<lparr>data_queue :=
            (if queue_full q then tl (data_queue q) else data_queue q) @ [x]\<rparr>)"
proof (cases "queue_full q")
  case False
  then show ?thesis by (simp add: push_def queue_put_def)
next
  case True
  then have n: "0 < buffer_size q" and len: "int (length (data_queue q)) = buffer_size q"
    using assms by (auto simp: queue_full_def)
  then obtain y ys where ys: "data_queue q = y # ys" by (cases "data_queue q") auto
  have "\<not> queue_full (q\<lparr>data_queue := ys\<rparr>)" using len ys by (simp add: queue_full_def)
  then show ?thesis using True ys by (simp add: push_def queue_get_def queue_put_def)
qed

lemma pushes_general:
  assumes "0 < buffer_size q \<longrightarrow> int (length (data_queue q)) \<le> buffer_size q"
  shows "pushes q xs = Some (q\<lparr>data_queue :=
            (if 0 < buffer_size q
             then drop (length (data_queue q @ xs) - nat (buffer_size q)) (data_queue q @ xs)
             else data_queue q @ xs)\<rparr>)"
  using assms
proof (induction xs arbitrary: q)
  case Nil
  then show ?case by auto
next
  case (Cons x xs)
  let ?q' = "q\<lparr>data_queue := (if queue_full q then tl (data_queue q) else data_queue q) @ [x]\<rparr>"
  have p: "push q x = Some ?q'" by (rule push_ok[OF Cons.prems])
  have inv: "0 < buffer_size ?q' \<longrightarrow> int (length (data_queue ?q')) \<le> buffer_size ?q'"
    using Cons.prems by (auto simp: queue_full_def)
  have "pushes q (x # xs) = pushes ?q' xs" using p by simp
  also have "\<dots> = Some (?q'\<lparr>data_queue :=
            (if 0 < buffer_size ?q'
             then drop (length (data_queue ?q' @ xs) - nat (buffer_size ?q')) (data_queue ?q' @ xs)
             else data_queue ?q' @ xs)\<rparr>)"
    by (rule Cons.IH[OF inv])
  also have "\<dots> = Some (q\<lparr>data_queue :=
            (if 0 < buffer_size q
             then drop (length (data_queue q @ x # xs) - nat (buffer_size q)) (data_queue q @ x # xs)
             else data_queue q @ x # xs)\<rparr>)"
  proof (cases "queue_full q")
    case False
    then show ?thesis by simp
  next
    case True
    then have n: "0 < buffer_size q" and len: "length (data_queue q) = nat (buffer_size q)"
      using Cons.prems by (auto simp: queue_full_def)
    then obtain y ys where ys: "data_queue q = y # ys" by (cases "data_queue q") auto
    show ?thesis using True n len ys by (simp add: Suc_diff_le)
  qed
  finally show ?case .
qed


lemma broadcast_gpu_monitor: "gpu_monitor (fst (broadcast F send m data)) = gpu_monitor m"
  by (simp add: broadcast_def split: prod.splits)

lemma broadcast_connections:
  "active_connections (fst (broadcast F send m data)) = active_connections m"
  by (simp add: broadcast_def split: prod.splits)

text \<open>
  C1, as amended. \<open>get_current_data\<close> returns everything queued, oldest first, and removes
  nothing: the monitor is the same after the call, and a second read with no push between
  returns the same list. One pass of the broadcast loop leaves the queue as it was and
  broadcasts the last entry, or does nothing when the queue is empty. The push of the
  monitoring loop never waits and never fails: from the empty queue any sequence of pushes
  ends with the last \<open>buffer_size\<close> entries in arrival order (all of them when
  \<open>buffer_size\<close> is not positive).
\<close>

theorem sample_queue_read_and_push:
  "fst (get_current_data q) = data_queue q
   \<and> snd (get_current_data q) = q
   \<and> fst (get_current_data (snd (get_current_data q))) = fst (get_current_data q)
   \<and> gpu_monitor (fst (monitoring_tick F send mgr)) = gpu_monitor mgr
   \<and> monitoring_tick F send mgr =
       (if data_queue (gpu_monitor mgr) = [] then (mgr, [])
        else broadcast F send mgr
               \<lparr>timestamp = isoformat F (fst (last (data_queue (gpu_monitor mgr)))),
                metrics = snd (last (data_queue (gpu_monitor mgr))), status = None\<rparr>)
   \<and> pushes (BaseMonitor_init n) xs =
       Some \<lparr>buffer_size = n,
             data_queue = (if 0 < n then drop (length xs - nat n) xs else xs)\<rparr>"
proof -
  have t: "monitoring_tick F send mgr =
       (if data_queue (gpu_monitor mgr) = [] then (mgr, [])
        else broadcast F send mgr
               \<lparr>timestamp = isoformat F (fst (last (data_queue (gpu_monitor mgr)))),
                metrics = snd (last (data_queue (gpu_monitor mgr))), status = None\<rparr>)"
    by (simp add: monitoring_tick_def get_current_data_def)
  have g: "gpu_monitor (fst (monitoring_tick F send mgr)) = gpu_monitor mgr"
    unfolding t by (simp add: broadcast_gpu_monitor)
  have p: "pushes (BaseMonitor_init n) xs =
       Some \<lparr>buffer_size = n,
             data_queue = (if 0 < n then drop (length xs - nat n) xs else xs)\<rparr>"
    using pushes_general [of "BaseMonitor_init n" xs] by (simp add: BaseMonitor_init_def)
  show ?thesis using t g p by (simp add: get_current_data_def)
qed

theorem sample_queue_read_and_push_witness:
  "pushes (BaseMonitor_init 3) [1, 2, 3, 4, 5 :: nat] = Some \<lparr>buffer_size = 3, data_queue = [3, 4, 5]\<rparr>
   \<and> fst (get_current_data \<lparr>buffer_size = 3, data_queue = [3, 4, 5 :: nat]\<rparr>) = [3, 4, 5]
   \<and> snd (get_current_data \<lparr>buffer_size = 3, data_queue = [3, 4, 5 :: nat]\<rparr>)
        = \<lparr>buffer_size = 3, data_queue = [3, 4, 5]\<rparr>"
  using sample_queue_read_and_push [of "\<lparr>buffer_size = 3, data_queue = [3, 4, 5 :: nat]\<rparr>"
      plain_formatters "\<lambda>_ _. True"
      "\<lparr>active_connections = [], gpu_monitor = BaseMonitor_init 50,
        anomaly_detector = GPUAnomalyDetector_init 10\<rparr>" 3 "[1, 2, 3, 4, 5 :: nat]"]
  by simp

text \<open>The read does not empty the queue, and the next read returns the same snapshot.\<close>

theorem drain_counterexample:
  "fst (get_current_data \<lparr>buffer_size = 50, data_queue = [(0 :: real, [(gpu_key 0, quiet_sample)])]\<rparr>)
     = [(0, [(gpu_key 0, quiet_sample)])]
   \<and> data_queue (snd (get_current_data
        \<lparr>buffer_size = 50, data_queue = [(0 :: real, [(gpu_key 0, quiet_sample)])]\<rparr>)) \<noteq> []
   \<and> fst (get_current_data (snd (get_current_data
        \<lparr>buffer_size = 50, data_queue = [(0 :: real, [(gpu_key 0, quiet_sample)])]\<rparr>)))
     = [(0, [(gpu_key 0, quiet_sample)])]
   \<and> data_queue (gpu_monitor (fst (monitoring_tick plain_formatters (\<lambda>_ _. True)
        \<lparr>active_connections = [],
         gpu_monitor = \<lparr>buffer_size = 50, data_queue = [(0, [(gpu_key 0, quiet_sample)])]\<rparr>,
         anomaly_detector = GPUAnomalyDetector_init 10\<rparr>))) \<noteq> []"
  by (simp add: get_current_data_def monitoring_tick_def broadcast_def)

section \<open>Properties of the broadcast\<close>

lemma broadcast_loop_send_indep:
  "fst (broadcast_loop F send det data cs) = fst (broadcast_loop F send' det data cs)
   \<and> fst (snd (broadcast_loop F send det data cs)) = fst (snd (broadcast_loop F send' det data cs))
   \<and> map attempted (snd (snd (broadcast_loop F send det data cs)))
       = map attempted (snd (snd (broadcast_loop F send' det data cs)))"
proof (induction cs arbitrary: det data)
  case Nil
  show ?case by simp
next
  case (Cons c cs)
  obtain det1 r where ca: "classify_all F det (metrics data) [] = (det1, r)"
    by (cases "classify_all F det (metrics data) []")
  show ?case
  proof (cases r)
    case (Inl ge)
    obtain g e where ge: "ge = (g, e)" by (cases ge)
    show ?thesis using ca Inl ge Cons.IH[of det1 data]
      by (auto split: prod.splits)
  next
    case (Inr st)
    show ?thesis using ca Inr Cons.IH[of det1 "data\<lparr>status := Some st\<rparr>"]
      by (auto simp: Let_def split: prod.splits)
  qed
qed

lemma broadcast_loop_connections:
  "map event_connection (snd (snd (broadcast_loop F send det data cs))) = cs"
proof (induction cs arbitrary: det data)
  case Nil
  show ?case by simp
next
  case (Cons c cs)
  obtain det1 r where ca: "classify_all F det (metrics data) [] = (det1, r)"
    by (cases "classify_all F det (metrics data) []")
  show ?case
  proof (cases r)
    case (Inl ge)
    obtain g e where ge: "ge = (g, e)" by (cases ge)
    show ?thesis using ca Inl ge Cons.IH[of det1 data]
      by (auto split: prod.splits)
  next
    case (Inr st)
    show ?thesis using ca Inr Cons.IH[of det1 "data\<lparr>status := Some st\<rparr>"]
      by (auto simp: Let_def split: prod.splits)
  qed
qed

lemma broadcast_loop_outcomes:
  "\<forall>ev \<in> set (snd (snd (broadcast_loop F send det data cs))).
      (case ev of Sent c e \<Rightarrow> send c e | SendFailed c e \<Rightarrow> \<not> send c e | ClassifyFailed c g e \<Rightarrow> True)"
proof (induction cs arbitrary: det data)
  case Nil
  show ?case by simp
next
  case (Cons c cs)
  obtain det1 r where ca: "classify_all F det (metrics data) [] = (det1, r)"
    by (cases "classify_all F det (metrics data) []")
  show ?case
  proof (cases r)
    case (Inl ge)
    obtain g e where ge: "ge = (g, e)" by (cases ge)
    show ?thesis using ca Inl ge Cons.IH[of det1 data]
      by (auto split: prod.splits)
  next
    case (Inr st)
    show ?thesis using ca Inr Cons.IH[of det1 "data\<lparr>status := Some st\<rparr>"]
      by (auto simp: Let_def split: prod.splits)
  qed
qed


lemmas eval_detect =
  update_def detect_def detect_rest_def critical_reasons_def warnings_def status_desc_def
  power_error_set_def default_thresholds_def quiet_sample_def GPUAnomalyDetector_init_def
  py_split_def is_space_def Let_def gpu_key_def str_nat.simps

lemma pass_event_status: "pass_event F send det (data\<lparr>status := x\<rparr>) c = pass_event F send det data c"
  by (simp add: pass_event_def split: sum.splits)

lemma broadcast_loop_length: "length (snd (snd (broadcast_loop F send det data cs))) = length cs"
  using broadcast_loop_connections [of F send det data cs] by (metis length_map)

lemma broadcast_loop_nth:
  "i < length cs \<Longrightarrow>
     snd (snd (broadcast_loop F send det data cs)) ! i
       = pass_event F send (classified_after F det (metrics data) i) data (cs ! i)"
proof (induction cs arbitrary: det data i)
  case Nil
  then show ?case by simp
next
  case (Cons c cs)
  obtain det1 r where ca: "classify_all F det (metrics data) [] = (det1, r)"
    by (cases "classify_all F det (metrics data) []")
  show ?case
  proof (cases i)
    case 0
    show ?thesis
    proof (cases r)
      case (Inl ge)
      obtain g e where ge: "ge = (g, e)" by (cases ge)
      show ?thesis using 0 ca Inl ge by (simp add: pass_event_def split: prod.splits)
    next
      case (Inr st)
      show ?thesis using 0 ca Inr by (simp add: pass_event_def Let_def split: prod.splits)
    qed
  next
    case (Suc j)
    then have j: "j < length cs" using Cons.prems by simp
    show ?thesis
    proof (cases r)
      case (Inl ge)
      obtain g e where ge: "ge = (g, e)" by (cases ge)
      show ?thesis using Suc ca Inl ge Cons.IH[OF j, of det1 data]
        by (auto split: prod.splits)
    next
      case (Inr st)
      have m: "metrics (data\<lparr>status := Some st\<rparr>) = metrics data" by simp
      show ?thesis using Suc ca Inr Cons.IH[OF j, of det1 "data\<lparr>status := Some st\<rparr>"]
        unfolding m pass_event_status
        by (auto simp: Let_def split: prod.splits)
    qed
  qed
qed

lemma update_last:
  "\<exists>w. history (update d g m) g = Some w \<and> (w = [] \<or> last w = m)"
proof -
  let ?h0 = "case history d g of None \<Rightarrow> [] | Some h \<Rightarrow> h"
  have "tl (?h0 @ [m]) = [] \<or> last (tl (?h0 @ [m])) = m"
    by (cases ?h0) auto
  then show ?thesis by (auto simp: update_same Let_def)
qed

lemma detect_after_update:
  assumes "sample_usable m"
  shows "\<exists>r. detect F (update d g m) g = Inr r"
proof -
  obtain w where w: "history (update d g m) g = Some w" and l: "w = [] \<or> last w = m"
    using update_last by blast
  show ?thesis
  proof (cases "w = []")
    case True
    then show ?thesis using w by (simp add: detect_def)
  next
    case False
    then have lw: "last w = m" using l by simp
    have "\<not> (\<exists>e. detect F (update d g m) g = Inl e)"
      using detect_raises_iff[OF w False, of F] assms lw by (auto simp: sample_usable_def)
    then show ?thesis by (cases "detect F (update d g m) g") auto
  qed
qed

lemma classify_all_usable:
  "\<forall>p \<in> set ms. sample_usable (snd p) \<Longrightarrow> \<exists>st. snd (classify_all F det ms acc) = Inr st"
proof (induction ms arbitrary: det acc)
  case Nil
  show ?case by simp
next
  case (Cons p ms)
  obtain g1 m1 where p: "p = (g1, m1)" by (cases p)
  have "sample_usable m1" using Cons.prems p by simp
  then obtain r where r: "detect F (update det g1 m1) g1 = Inr r"
    using detect_after_update by blast
  obtain st reason where sr: "r = (st, reason)" by (cases r)
  have rest: "\<forall>p \<in> set ms. sample_usable (snd p)" using Cons.prems by simp
  show ?case using p r sr Cons.IH[OF rest] by (simp add: Let_def)
qed

lemma pass_event_usable:
  assumes "\<forall>p \<in> set (metrics data). sample_usable (snd p)"
  shows "\<exists>st. pass_event F send det data c =
           (if send c (data\<lparr>status := Some st\<rparr>) then Sent c (data\<lparr>status := Some st\<rparr>)
            else SendFailed c (data\<lparr>status := Some st\<rparr>))"
proof -
  obtain st where "snd (classify_all F det (metrics data) []) = Inr st"
    using classify_all_usable[OF assms] by blast
  then show ?thesis by (auto simp: pass_event_def)
qed


lemma std_spread: "15 \<le> np_std [100, 50, 50]"
proof -
  have "np_mean (map (\<lambda>x. \<bar>x - np_mean [100, 50, 50]\<bar> ^ 2) [100, 50, 50]) = 5000 / 9"
    by (simp add: np_mean_def power2_eq_square)
  moreover have "(15::real)\<^sup>2 \<le> 5000 / 9" by (simp add: power2_eq_square)
  ultimately show ?thesis unfolding np_std_def by (simp add: real_le_rsqrt)
qed

lemma std_flat: "np_std [x, x, x] = 0"
  by (simp add: np_std_def np_mean_def)

text \<open>
  C2, as amended. \<open>broadcast\<close> makes one pass per subscriber, in order, and leaves the
  subscriber list as it was: a subscriber whose send raised stays in it. The pass of the
  \<open>i\<close>-th subscriber is exactly \<open>pass_event\<close> on the detector that \<open>i\<close> classifications
  leave, whatever the sends before it did: it classifies, and unless the classification
  raises it sends to that subscriber. When every sample of the snapshot has a non-zero
  \<open>memory_total\<close> and a usable driver version no classification raises, so delivery is
  attempted to every subscriber, and the event is \<open>Sent\<close> where the send returned and
  \<open>SendFailed\<close> where it raised. The detector after the broadcast does not depend on the
  sends.
\<close>

theorem broadcast_send_failure_isolated:
  "active_connections (fst (broadcast F send mgr data)) = active_connections mgr
   \<and> length (snd (broadcast F send mgr data)) = length (active_connections mgr)
   \<and> (\<forall>i < length (active_connections mgr).
         snd (broadcast F send mgr data) ! i
           = pass_event F send (classified_after F (anomaly_detector mgr) (metrics data) i) data
               (active_connections mgr ! i))
   \<and> ((\<forall>p \<in> set (metrics data). sample_usable (snd p)) \<longrightarrow>
        (\<forall>i < length (active_connections mgr). \<exists>st.
           snd (broadcast F send mgr data) ! i
             = (if send (active_connections mgr ! i) (data\<lparr>status := Some st\<rparr>)
                then Sent (active_connections mgr ! i) (data\<lparr>status := Some st\<rparr>)
                else SendFailed (active_connections mgr ! i) (data\<lparr>status := Some st\<rparr>))))
   \<and> fst (broadcast F send mgr data) = fst (broadcast F send' mgr data)"
proof -
  let ?cs = "active_connections mgr" and ?det = "anomaly_detector mgr"
  have ev: "snd (broadcast F send mgr data) = snd (snd (broadcast_loop F send ?det data ?cs))"
    by (simp add: broadcast_def split: prod.splits)
  have 1: "active_connections (fst (broadcast F send mgr data)) = ?cs"
    by (rule broadcast_connections)
  have 2: "length (snd (broadcast F send mgr data)) = length ?cs"
    unfolding ev by (rule broadcast_loop_length)
  have 3: "\<forall>i < length ?cs. snd (broadcast F send mgr data) ! i
           = pass_event F send (classified_after F ?det (metrics data) i) data (?cs ! i)"
    unfolding ev by (simp add: broadcast_loop_nth)
  have 4: "(\<forall>p \<in> set (metrics data). sample_usable (snd p)) \<longrightarrow>
        (\<forall>i < length ?cs. \<exists>st.
           snd (broadcast F send mgr data) ! i
             = (if send (?cs ! i) (data\<lparr>status := Some st\<rparr>)
                then Sent (?cs ! i) (data\<lparr>status := Some st\<rparr>)
                else SendFailed (?cs ! i) (data\<lparr>status := Some st\<rparr>)))"
    using 3 pass_event_usable[of data F send] by simp
  have 5: "fst (broadcast F send mgr data) = fst (broadcast F send' mgr data)"
    using broadcast_loop_send_indep [of F send ?det data ?cs send']
    by (auto simp: broadcast_def split: prod.splits)
  from 1 2 3 4 5 show ?thesis by blast
qed

text \<open>
  The send to subscriber 1 raises, and subscriber 1 is still in the list afterwards. In the
  second broadcast the send to subscriber 1 raises as well, and nothing is delivered to
  subscriber 2: the first pass found the window fluctuating, the second pass finds it flat,
  reaches the NORMAL branch and raises on the missing driver version.
\<close>

theorem broadcast_keeps_failed_subscriber:
  "map send_failed (snd (broadcast plain_formatters first_fails two_subscribers one_device_data))
     = [True, False]
   \<and> active_connections (fst (broadcast plain_formatters first_fails two_subscribers one_device_data))
     = [1, 2]
   \<and> map send_failed (snd (broadcast plain_formatters first_fails settling_manager no_driver_data))
     = [True, False]
   \<and> map attempted (snd (broadcast plain_formatters first_fails settling_manager no_driver_data)) ! 1
     = None"
proof -
  have a: "map send_failed (snd (broadcast plain_formatters first_fails two_subscribers one_device_data))
     = [True, False]
   \<and> active_connections (fst (broadcast plain_formatters first_fails two_subscribers one_device_data))
     = [1, 2]"
    by (simp add: broadcast_def two_subscribers_def one_device_data_def first_fails_def eval_detect)
  have b: "snd (broadcast plain_formatters first_fails settling_manager no_driver_data)
     = [SendFailed 1 (no_driver_data\<lparr>status := Some [(gpu_key 0,
            (status_value FLUCTUATING, msg_util_std @ [63] @ msg_close))]\<rparr>),
        ClassifyFailed 2 (gpu_key 0) AttributeError]"
    using std_spread std_flat
    by (simp add: broadcast_def settling_manager_def no_driver_data_def first_fails_def
          detector_with_def no_driver_sample_def plain_formatters_def eval_detect)
  show ?thesis using a by (simp add: b)
qed

theorem broadcast_send_failure_isolated_witness:
  "sample_usable quiet_sample
   \<and> metrics one_device_data = [(gpu_key 0, quiet_sample)]
   \<and> map send_failed (snd (broadcast plain_formatters first_fails two_subscribers one_device_data))
     = [True, False]
   \<and> map (map_option fst \<circ> attempted)
        (snd (broadcast plain_formatters first_fails two_subscribers one_device_data))
     = [Some 1, Some 2]
   \<and> fst (broadcast plain_formatters first_fails two_subscribers one_device_data)
     = fst (broadcast plain_formatters all_succeed two_subscribers one_device_data)"
proof -
  have sp: "\<not> is_space 53" by (simp add: is_space_def)
  have u: "\<forall>p \<in> set (metrics one_device_data). sample_usable (snd p)"
    using sp by (simp add: one_device_data_def sample_usable_def driver_unusable_def quiet_sample_def)
  have a: "map send_failed (snd (broadcast plain_formatters first_fails two_subscribers one_device_data))
     = [True, False]"
    by (simp add: broadcast_def two_subscribers_def one_device_data_def first_fails_def eval_detect)
  have b: "map (map_option fst \<circ> attempted)
        (snd (broadcast plain_formatters first_fails two_subscribers one_device_data))
     = [Some 1, Some 2]"
    by (simp add: broadcast_def two_subscribers_def one_device_data_def first_fails_def eval_detect)
  have q: "sample_usable quiet_sample"
    using sp by (simp add: sample_usable_def driver_unusable_def quiet_sample_def)
  have m: "metrics one_device_data = [(gpu_key 0, quiet_sample)]"
    by (simp add: one_device_data_def)
  show ?thesis
    using u q m a b broadcast_send_failure_isolated [of plain_formatters first_fails two_subscribers
        one_device_data all_succeed]
    by simp
qed


lemma update_window: "window (update d g m) g = push_window (window_size d) (window d g) m"
  by (simp add: window_def update_def push_window_def Let_def)

lemma update_window_other: "g' \<noteq> g \<Longrightarrow> window (update d g m) g' = window d g'"
  by (simp add: window_def update_other)

lemma classify_all_window_size:
  "classify_all F det ms acc = (det', r) \<Longrightarrow> window_size det' = window_size det"
proof (induction ms arbitrary: det acc)
  case Nil
  then show ?case by simp
next
  case (Cons p ms)
  obtain g1 m1 where p: "p = (g1, m1)" by (cases p)
  show ?case
  proof (cases "detect F (update det g1 m1) g1")
    case (Inl e)
    then show ?thesis using Cons.prems p by (auto simp: Let_def update_window_size)
  next
    case (Inr sr)
    obtain st reason where sr: "sr = (st, reason)" by (cases sr)
    have "classify_all F (update det g1 m1) ms (dict_set g1 (status_value st, reason) acc) = (det', r)"
      using Cons.prems p Inr sr by (simp add: Let_def)
    from Cons.IH[OF this] show ?thesis by (simp add: update_window_size)
  qed
qed

lemma classify_all_other:
  "g \<notin> fst ` set ms \<Longrightarrow> classify_all F det ms acc = (det', r) \<Longrightarrow> window det' g = window det g"
proof (induction ms arbitrary: det acc)
  case Nil
  then show ?case by simp
next
  case (Cons p ms)
  obtain g1 m1 where p: "p = (g1, m1)" by (cases p)
  have ne: "g \<noteq> g1" and rest: "g \<notin> fst ` set ms" using Cons.prems(1) p by auto
  show ?case
  proof (cases "detect F (update det g1 m1) g1")
    case (Inl e)
    then show ?thesis using Cons.prems(2) p ne by (auto simp: Let_def update_window_other)
  next
    case (Inr sr)
    obtain st reason where sr: "sr = (st, reason)" by (cases sr)
    have "classify_all F (update det g1 m1) ms (dict_set g1 (status_value st, reason) acc) = (det', r)"
      using Cons.prems(2) p Inr sr by (simp add: Let_def)
    from Cons.IH[OF rest this] show ?thesis using ne by (simp add: update_window_other)
  qed
qed

lemma classify_all_window:
  assumes "distinct (map fst ms)" and "(g, s) \<in> set ms"
    and "classify_all F det ms acc = (det', r)"
    and "\<forall>g' e. r = Inl (g', e) \<longrightarrow> g' \<notin> listed_before g ms"
  shows "window det' g = push_window (window_size det) (window det g) s"
  using assms
proof (induction ms arbitrary: det acc)
  case Nil
  then show ?case by simp
next
  case (Cons p ms)
  obtain g1 m1 where p: "p = (g1, m1)" by (cases p)
  show ?case
  proof (cases "g1 = g")
    case True
    then have m1: "m1 = s" and rest: "g \<notin> fst ` set ms"
      using Cons.prems(1,2) p by (auto simp: image_iff)
    show ?thesis
    proof (cases "detect F (update det g s) g")
      case (Inl e)
      then show ?thesis using Cons.prems(3) p True m1 by (auto simp: Let_def update_window)
    next
      case (Inr sr)
      obtain st reason where sr: "sr = (st, reason)" by (cases sr)
      have "classify_all F (update det g s) ms (dict_set g (status_value st, reason) acc) = (det', r)"
        using Cons.prems(3) p True m1 Inr sr by (simp add: Let_def)
      from classify_all_other[OF rest this] show ?thesis by (simp add: update_window)
    qed
  next
    case False
    then have mem: "(g, s) \<in> set ms" and dist: "distinct (map fst ms)"
      using Cons.prems(1,2) p by auto
    have lb: "listed_before g (p # ms) = insert g1 (listed_before g ms)"
      using False p by (simp add: listed_before_def)
    show ?thesis
    proof (cases "detect F (update det g1 m1) g1")
      case (Inl e)
      then have "r = Inl (g1, e)" using Cons.prems(3) p by (auto simp: Let_def)
      then show ?thesis using Cons.prems(4) lb by simp
    next
      case (Inr sr)
      obtain st reason where sr: "sr = (st, reason)" by (cases sr)
      have ca: "classify_all F (update det g1 m1) ms (dict_set g1 (status_value st, reason) acc) = (det', r)"
        using Cons.prems(3) p Inr sr by (simp add: Let_def)
      have ok: "\<forall>g' e. r = Inl (g', e) \<longrightarrow> g' \<notin> listed_before g ms"
        using Cons.prems(4) lb by simp
      from Cons.IH[OF dist mem ca ok] show ?thesis
        using False by (simp add: update_window_other update_window_size)
    qed
  qed
qed


lemma broadcast_loop_window:
  assumes "distinct (map fst (metrics data))" and "(g, s) \<in> set (metrics data)"
    and "broadcast_loop F send det data cs = (det', data', evs)"
    and "\<forall>ev \<in> set evs. case ev of ClassifyFailed c g' e \<Rightarrow> g' \<notin> listed_before g (metrics data)
                               | _ \<Rightarrow> True"
  shows "window det' g = ((\<lambda>w. push_window (window_size det) w s) ^^ length cs) (window det g)
         \<and> window_size det' = window_size det"
  using assms
proof (induction cs arbitrary: det data det' data' evs)
  case Nil
  then show ?case by simp
next
  case (Cons c cs)
  obtain det1 r where ca: "classify_all F det (metrics data) [] = (det1, r)"
    by (cases "classify_all F det (metrics data) []")
  have ws1: "window_size det1 = window_size det" by (rule classify_all_window_size[OF ca])
  show ?case
  proof (cases r)
    case (Inl ge)
    obtain g' e where ge: "ge = (g', e)" by (cases ge)
    obtain det2 data2 evs2 where bl: "broadcast_loop F send det1 data cs = (det2, data2, evs2)"
      by (cases "broadcast_loop F send det1 data cs")
    have res: "det' = det2" "evs = ClassifyFailed c g' e # evs2"
      using Cons.prems(3) ca Inl ge bl by simp_all
    have ok: "\<forall>g'' e'. r = Inl (g'', e') \<longrightarrow> g'' \<notin> listed_before g (metrics data)"
      using Cons.prems(4) res Inl ge by simp
    have w1: "window det1 g = push_window (window_size det) (window det g) s"
      by (rule classify_all_window[OF Cons.prems(1,2) ca ok])
    have ok2: "\<forall>ev \<in> set evs2. case ev of ClassifyFailed c g' e \<Rightarrow> g' \<notin> listed_before g (metrics data)
                               | _ \<Rightarrow> True"
      using Cons.prems(4) res by simp
    from Cons.IH[OF Cons.prems(1,2) bl ok2] show ?thesis
      using res w1 ws1
        funpow_swap1 [of "\<lambda>w. push_window (window_size det) w s" "length cs" "window det g"]
      by simp
  next
    case (Inr st)
    let ?data1 = "data\<lparr>status := Some st\<rparr>"
    obtain det2 data2 evs2 where bl: "broadcast_loop F send det1 ?data1 cs = (det2, data2, evs2)"
      by (cases "broadcast_loop F send det1 ?data1 cs")
    have res: "det' = det2"
      "evs = (if send c ?data1 then Sent c ?data1 else SendFailed c ?data1) # evs2"
      using Cons.prems(3) ca Inr bl by (simp_all add: Let_def)
    have w1: "window det1 g = push_window (window_size det) (window det g) s"
      using classify_all_window[OF Cons.prems(1,2) ca] Inr by simp
    have m: "metrics ?data1 = metrics data" by simp
    have ok2: "\<forall>ev \<in> set evs2. case ev of ClassifyFailed c g' e \<Rightarrow> g' \<notin> listed_before g (metrics ?data1)
                               | _ \<Rightarrow> True"
      unfolding m using Cons.prems(4) res by simp
    have d1: "distinct (map fst (metrics ?data1))" and m1: "(g, s) \<in> set (metrics ?data1)"
      using Cons.prems(1,2) by simp_all
    from Cons.IH[OF d1 m1 bl ok2] show ?thesis
      using res w1 ws1
        funpow_swap1 [of "\<lambda>w. push_window (window_size det) w s" "length cs" "window det g"]
      by simp
  qed
qed

lemma push_window_drop:
  assumes "0 \<le> ws"
  shows "push_window ws (drop (length xs - nat ws) xs) m = drop (length (xs @ [m]) - nat ws) (xs @ [m])"
  using push_drop[OF assms, of xs m] by (simp add: push_window_def Let_def)

lemma funpow_push_window:
  assumes "0 \<le> ws" and "int (length w) \<le> ws"
  shows "((\<lambda>w. push_window ws w s) ^^ n) w = drop (length w + n - nat ws) (w @ replicate n s)"
proof (induction n)
  case 0
  show ?case using assms by simp
next
  case (Suc n)
  have "((\<lambda>w. push_window ws w s) ^^ Suc n) w
        = push_window ws (drop (length (w @ replicate n s) - nat ws) (w @ replicate n s)) s"
    using Suc by simp
  also have "\<dots> = drop (length ((w @ replicate n s) @ [s]) - nat ws) ((w @ replicate n s) @ [s])"
    by (rule push_window_drop[OF assms(1)])
  also have "(w @ replicate n s) @ [s] = w @ replicate (Suc n) s"
    by (simp add: replicate_append_same)
  finally show ?case by simp
qed

text \<open>
  C9, as amended. Let the detector have a capacity \<open>ws \<ge> 0\<close> and a window for \<open>g\<close> no
  longer than \<open>ws\<close>, let the snapshot list \<open>g\<close> once with the sample \<open>s\<close>, and let no
  classification of a device listed before \<open>g\<close> raise during the broadcast. Then with
  \<open>N\<close> subscribers the window of \<open>g\<close> afterwards is the last \<open>ws\<close> entries of the old
  window followed by \<open>N\<close> copies of \<open>s\<close>. With no subscriber the broadcast changes
  nothing and records no event.
\<close>

theorem broadcast_appends_per_connection:
  assumes "0 \<le> window_size (anomaly_detector mgr)"
    and "int (length (window (anomaly_detector mgr) g)) \<le> window_size (anomaly_detector mgr)"
    and "distinct (map fst (metrics data))"
    and "(g, s) \<in> set (metrics data)"
    and "\<forall>ev \<in> set (snd (broadcast F send mgr data)).
           case ev of ClassifyFailed c g' e \<Rightarrow> g' \<notin> listed_before g (metrics data) | _ \<Rightarrow> True"
  shows "window (anomaly_detector (fst (broadcast F send mgr data))) g
           = drop (length (window (anomaly_detector mgr) g) + length (active_connections mgr)
                    - nat (window_size (anomaly_detector mgr)))
               (window (anomaly_detector mgr) g @ replicate (length (active_connections mgr)) s)
         \<and> (active_connections mgr = [] \<longrightarrow> broadcast F send mgr data = (mgr, []))"
proof -
  obtain det' data' evs where
    bl: "broadcast_loop F send (anomaly_detector mgr) data (active_connections mgr) = (det', data', evs)"
    by (cases "broadcast_loop F send (anomaly_detector mgr) data (active_connections mgr)")
  have b: "broadcast F send mgr data = (mgr\<lparr>anomaly_detector := det'\<rparr>, evs)"
    using bl by (simp add: broadcast_def)
  have ok: "\<forall>ev \<in> set evs. case ev of ClassifyFailed c g' e \<Rightarrow> g' \<notin> listed_before g (metrics data)
                               | _ \<Rightarrow> True"
    using assms(5) b by simp
  have "window det' g = ((\<lambda>w. push_window (window_size (anomaly_detector mgr)) w s)
                            ^^ length (active_connections mgr)) (window (anomaly_detector mgr) g)"
    using broadcast_loop_window[OF assms(3,4) bl ok] by simp
  then have 1: "window (anomaly_detector (fst (broadcast F send mgr data))) g
           = drop (length (window (anomaly_detector mgr) g) + length (active_connections mgr)
                    - nat (window_size (anomaly_detector mgr)))
               (window (anomaly_detector mgr) g @ replicate (length (active_connections mgr)) s)"
    using funpow_push_window[OF assms(1,2)] b by simp
  have 2: "active_connections mgr = [] \<longrightarrow> broadcast F send mgr data = (mgr, [])"
    by (simp add: broadcast_def)
  from 1 2 show ?thesis by blast
qed

text \<open>When the classification of the first device raises, the pass ends there: the second
  device gets no copy, for either subscriber.\<close>

theorem broadcast_skips_later_devices:
  "window (anomaly_detector (fst (broadcast plain_formatters all_succeed two_subscribers two_device_data)))
      (gpu_key 0) = [no_driver_sample, no_driver_sample]
   \<and> window (anomaly_detector (fst (broadcast plain_formatters all_succeed two_subscribers two_device_data)))
      (gpu_key 1) = []
   \<and> snd (broadcast plain_formatters all_succeed two_subscribers two_device_data)
      = [ClassifyFailed 1 (gpu_key 0) AttributeError, ClassifyFailed 2 (gpu_key 0) AttributeError]"
  by (simp add: broadcast_def two_subscribers_def two_device_data_def no_driver_sample_def
        window_def eval_detect)

theorem broadcast_appends_per_connection_witness:
  "window (anomaly_detector (fst (broadcast plain_formatters first_fails two_subscribers one_device_data)))
      (gpu_key 0) = [quiet_sample, quiet_sample]"
proof -
  have a: "0 \<le> window_size (anomaly_detector two_subscribers)"
    and b: "int (length (window (anomaly_detector two_subscribers) (gpu_key 0)))
             \<le> window_size (anomaly_detector two_subscribers)"
    and c: "distinct (map fst (metrics one_device_data))"
    and d: "(gpu_key 0, quiet_sample) \<in> set (metrics one_device_data)"
    by (simp_all add: two_subscribers_def one_device_data_def GPUAnomalyDetector_init_def window_def)
  have e: "\<forall>ev \<in> set (snd (broadcast plain_formatters first_fails two_subscribers one_device_data)).
           case ev of ClassifyFailed c g' e \<Rightarrow> g' \<notin> listed_before (gpu_key 0) (metrics one_device_data)
                    | _ \<Rightarrow> True"
    by (simp add: broadcast_def two_subscribers_def one_device_data_def first_fails_def eval_detect)
  show ?thesis
    using broadcast_appends_per_connection [OF a b c d e]
    by (simp add: two_subscribers_def GPUAnomalyDetector_init_def window_def numeral_2_eq_2)
qed

section \<open>Properties of the sampler\<close>

lemmas eval_metrics =
  get_metrics_def device_pass_def check_ecc_errors_def check_power_errors_def get_driver_version_def
  check_nvidia_smi_hang_def py_split_sep_def py_strip_def is_space_def gpu_key_def
  str_nat.simps Let_def quiet_sample_def two_gpu_provider_def fresh_monitor_def

lemma upt_two: "[0..<2] = [0, 1]"
  by (simp add: upt_rec numeral_2_eq_2)

lemma dict_set_subset: "set (dict_set k v m) \<subseteq> insert (k, v) (set m)"
  by (induction m) auto

lemma device_pass_not_due:
  assumes "t - last_ecc_check self < 60" and "device_pass P t i self b = (self', s)"
  shows "ecc_errors s = None \<and> last_ecc_check self' = last_ecc_check self"
  using assms by (auto simp: device_pass_def Let_def split: if_splits option.splits)

lemma device_pass_after:
  assumes "device_pass P t i self b = (self', s)"
  shows "t - last_ecc_check self' < 60"
  using assms by (auto simp: device_pass_def Let_def split: if_splits option.splits)

lemma loop_no_ecc:
  assumes "t - last_ecc_check self < 60"
    and "\<forall>p \<in> set m. fst p \<noteq> k0 \<longrightarrow> ecc_errors (snd p) = None"
  shows "\<forall>p \<in> set (snd (get_metrics_loop P t idx self m)). fst p \<noteq> k0 \<longrightarrow> ecc_errors (snd p) = None"
  using assms
proof (induction idx arbitrary: self m)
  case Nil
  then show ?case by simp
next
  case (Cons i rest)
  show ?case
  proof (cases "basic_metrics P i")
    case None
    then show ?thesis using Cons.prems(2) by simp
  next
    case (Some b)
    obtain self' s where dp: "device_pass P t i self b = (self', s)"
      by (cases "device_pass P t i self b")
    have nd: "ecc_errors s = None" and l: "t - last_ecc_check self' < 60"
      using device_pass_not_due[OF Cons.prems(1) dp] Cons.prems(1) by simp_all
    have inv: "\<forall>p \<in> set (dict_set (gpu_key i) s m). fst p \<noteq> k0 \<longrightarrow> ecc_errors (snd p) = None"
      using Cons.prems(2) nd dict_set_subset[of "gpu_key i" s m] by auto
    show ?thesis using Some dp Cons.IH[OF l inv] by simp
  qed
qed

lemma get_metrics_ecc_first_only:
  "\<forall>p \<in> set (snd (get_metrics P t self)). fst p \<noteq> gpu_key 0 \<longrightarrow> ecc_errors (snd p) = None"
proof (cases "nat (device_count self)")
  case 0
  then show ?thesis by (simp add: get_metrics_def)
next
  case (Suc n)
  have idx: "[0..<nat (device_count self)] = 0 # [1..<Suc n]"
    using Suc by (simp add: upt_rec)
  show ?thesis
  proof (cases "basic_metrics P 0")
    case None
    then show ?thesis by (simp add: get_metrics_def idx)
  next
    case (Some b)
    obtain self' s where dp: "device_pass P t 0 self b = (self', s)"
      by (cases "device_pass P t 0 self b")
    have l: "t - last_ecc_check self' < 60" by (rule device_pass_after[OF dp])
    have inv: "\<forall>p \<in> set (dict_set (gpu_key 0) s []). fst p \<noteq> gpu_key 0 \<longrightarrow> ecc_errors (snd p) = None"
      by simp
    show ?thesis using Some dp loop_no_ecc[OF l inv, of P "[1..<Suc n]"]
      by (simp add: get_metrics_def idx)
  qed
qed

text \<open>
  C3, where the code departs from it. The time stamp \<open>_last_ecc_check\<close> is set inside the
  loop over the devices, so after the pass of device 0 the check is no longer due in that
  call: with two devices and a check that reports a count for both, the snapshot holds the
  count of \<open>gpu_0\<close> and leaves \<open>ecc_errors\<close> of \<open>gpu_1\<close> unset. The lemma above shows
  this for every provider, time and monitor.
\<close>

theorem ecc_check_only_first_device:
  "check_ecc_errors (py_int two_gpu_provider) (ecc_command two_gpu_provider 0) (gpu_key 0) = Some 0
   \<and> check_ecc_errors (py_int two_gpu_provider) (ecc_command two_gpu_provider 1) (gpu_key 1) = Some 3
   \<and> map (\<lambda>p. (fst p, ecc_errors (snd p))) (snd (get_metrics two_gpu_provider 100 fresh_monitor))
       = [(gpu_key 0, Some 0), (gpu_key 1, None)]
   \<and> last_ecc_check (fst (get_metrics two_gpu_provider 100 fresh_monitor)) = 100"
  by (simp add: eval_metrics upt_two)

end
